theory Spec2Isabelle
  imports Complex_Main "HOL-Library.Sublist" "HOL-Library.Char_ord" "HOL-Library.List_Lexorder"
begin

section \<open>The survey pipeline of mturk.py\<close>

text \<open>
  The module holds one class, \<open>Survey\<close>, and its subclass \<open>GoogleForms\<close>. A survey
  object fetches the answers to screener questions from the task marketplace, joins them
  into one frame per task, filters the frame by conditions given as strings, mails the
  respondents who passed, compares them with the respondents found in a spreadsheet and
  pays bonuses.

  The embedding is a state-passing one. The object is a record whose attributes that only
  come into being in some method are options (\<open>None\<close>: the attribute does not exist, and
  reading it raises \<open>AttributeError\<close>). A method takes the object and returns an outcome
  and the object as the method left it, also when it raised. The fetch loop of
  \<open>get_mturk_results\<close> has no bound, so every method that runs it returns an option,
  \<open>None\<close> standing for a loop that never ends. What the methods print is not modelled.
\<close>

subsection \<open>Errors and outcomes\<close>

datatype error =
    ValueError
  | IndexError
  | KeyError
  | AttributeError
  | NotImplementedError
  | RegexError
  | RequestError

subsection \<open>Strings\<close>

text \<open>Python's \<open>f in cond\<close> on two strings: \<open>f\<close> occurs in \<open>cond\<close> as a substring.\<close>

fun str_in :: "string \<Rightarrow> string \<Rightarrow> bool" where
  "str_in f [] = (f = [])"
| "str_in f (c # cs) = (prefix f (c # cs) \<or> str_in f cs)"

text \<open>
  Python's \<open>s.split(sep)\<close> for a separator that is not empty: the pieces between the
  occurrences of \<open>sep\<close>, found from the left and never overlapping. \<open>cur\<close> holds the
  piece being read, reversed.
\<close>

fun split_from :: "string \<Rightarrow> string \<Rightarrow> string \<Rightarrow> string list" where
  "split_from sep cur [] = [rev cur]"
| "split_from sep cur (c # cs) =
     (if sep \<noteq> [] \<and> prefix sep (c # cs)
      then rev cur # split_from sep [] (drop (length sep - 1) cs)
      else split_from sep (c # cur) cs)"

definition py_split :: "string \<Rightarrow> string \<Rightarrow> error + string list" where
  "py_split s sep = (if sep = [] then Inl ValueError else Inr (split_from sep [] s))"

text \<open>Indexing a list, which raises \<open>IndexError\<close> out of range.\<close>

definition item :: "'a list \<Rightarrow> nat \<Rightarrow> error + 'a" where
  "item xs i = (if i < length xs then Inr (xs ! i) else Inl IndexError)"

subsection \<open>Frames\<close>

text \<open>
  A pandas frame, as far as the module uses one: the column labels, and the rows in
  order, each with its index label and one cell per column. Every cell of a frame built
  from marketplace answers is a string.
\<close>

record frame =
  columns :: "string list"
  rows :: "(nat \<times> string list) list"

text \<open>A cell of the spreadsheet column: a string, or \<open>None\<close> where the row is shorter
  than the header; a list of cells when several columns carry the label asked for.\<close>

datatype pyval = PStr string | PNone | PList "pyval list"

subsection \<open>The marketplace and the spreadsheet\<close>

record question_form_answer =
  qid :: string
  qfields :: "string list"

record assignment =
  WorkerId :: string
  AssignmentId :: string
  answers :: "question_form_answer list list"

text \<open>The requests that change something outside: a mail to a worker, a bonus.\<close>

datatype api_call =
    Notify string string string
  | GrantBonus string string rat string

typedecl joined_frame

text \<open>
  The collaborators, none of them code of this module. \<open>get_assignments hit n\<close> is page
  \<open>n\<close> of the assignments of a task; \<open>notify_workers\<close> and \<open>grant_bonus\<close> answer with the
  marketplace's reply or raise; \<open>sheet_values\<close> is the range read from the spreadsheet;
  \<open>re_search pat\<close> is the compiled regular expression \<open>pat\<close> as a test on strings, or
  \<open>None\<close> when \<open>pat\<close> does not compile; \<open>sheet_merge\<close>, \<open>drop_column\<close>,
  \<open>set_index\<close> and \<open>to_csv\<close> are the four pandas calls of \<open>merge\<close> on the frame
  joined with the spreadsheet, a frame no statement below looks into.
\<close>

record world =
  get_assignments :: "string \<Rightarrow> nat \<Rightarrow> error + assignment list"
  notify_workers :: "string \<Rightarrow> string \<Rightarrow> string \<Rightarrow> error + string"
  grant_bonus :: "string \<Rightarrow> string \<Rightarrow> rat \<Rightarrow> string \<Rightarrow> error + string"
  sheet_values :: "error + string list list"
  re_search :: "string \<Rightarrow> (string \<Rightarrow> bool) option"
  sheet_merge :: "frame \<Rightarrow> string list list \<Rightarrow> string \<Rightarrow> error + joined_frame"
  drop_column :: "joined_frame \<Rightarrow> string \<Rightarrow> error + joined_frame"
  set_index :: "joined_frame \<Rightarrow> string \<Rightarrow> error + joined_frame"
  to_csv :: "joined_frame \<Rightarrow> string \<Rightarrow> error + unit"

subsection \<open>The survey object\<close>

datatype survey_class = Survey | GoogleForms (srvy_q_text: string)

datatype mail_result = Sent string string | Failure string

record survey =
  klass :: survey_class
  HITlist :: "string list"
  questions :: "string list"
  srvy_link :: string
  from_name :: string
  cond_mapping :: "string list option"
  conditions :: "string list option"
  mturk_resp :: "frame option"
  filtered_mturk_resp :: "frame option"
  allAssignments :: "string list option"
  allUsers :: "string list option"
  filteredAssignments :: "string list option"
  filteredUsers :: "string list option"
  completeList :: "pyval list option"
  completeActual :: "string set option"
  remaining :: "string list option"
  results :: "string list list option"
  merged :: "joined_frame option"
  calls :: "api_call list"

text \<open>
  The object as \<open>__init__\<close> leaves it: the five constructor arguments stored, no other
  attribute yet. (The balance request that \<open>__init__\<close> makes to test the connection is
  taken to have succeeded.)
\<close>

definition init :: "survey_class \<Rightarrow> string list \<Rightarrow> string list \<Rightarrow> string \<Rightarrow> string \<Rightarrow> survey" where
  "init k hits qs link name =
     \<lparr> klass = k, HITlist = hits, questions = qs, srvy_link = link, from_name = name,
       cond_mapping = None, conditions = None, mturk_resp = None,
       filtered_mturk_resp = None, allAssignments = None, allUsers = None,
       filteredAssignments = None, filteredUsers = None, completeList = None,
       completeActual = None, remaining = None, results = None, merged = None,
       calls = [] \<rparr>"

subsection \<open>add_conditions\<close>

text \<open>The keys of \<open>cond_mapping\<close>, in the order the dictionary literal lists them.\<close>

definition operators :: "string list" where
  "operators = [''=='', ''!='', ''>='', ''<='', ''contains'', ''does not contain'']"

text \<open>\<open>[x for x in self.cond_mapping if x in cond]\<close>: the operators found in a condition.\<close>

definition matching :: "string list \<Rightarrow> string \<Rightarrow> string list" where
  "matching ops cond = filter (\<lambda>f. str_in f cond) ops"

text \<open>
  \<open>add_conditions\<close> stores the operator table first, then raises \<open>ValueError\<close> at the
  first condition in which no operator occurs, and only after the loop stores the
  conditions.
\<close>

definition add_conditions :: "string list \<Rightarrow> survey \<Rightarrow> (error + unit) \<times> survey" where
  "add_conditions conds s =
     (let s1 = s\<lparr>cond_mapping := Some operators\<rparr>
      in if list_ex (\<lambda>cond. \<not> list_ex (\<lambda>f. str_in f cond) operators) conds
         then (Inl ValueError, s1)
         else (Inr (), s1\<lparr>conditions := Some conds\<rparr>))"

subsection \<open>Sequencing\<close>

text \<open>An exception ends a computation: what follows a raised error does not run.\<close>

definition ebind :: "error + 'a \<Rightarrow> ('a \<Rightarrow> error + 'b) \<Rightarrow> error + 'b" where
  "ebind m f = (case m of Inl e \<Rightarrow> Inl e | Inr x \<Rightarrow> f x)"

text \<open>Reading an attribute of the object that may not exist yet.\<close>

definition attr :: "'a option \<Rightarrow> error + 'a" where
  "attr a = (case a of None \<Rightarrow> Inl AttributeError | Some v \<Rightarrow> Inr v)"

subsection \<open>get_mturk_results: one frame per question\<close>

text \<open>
  The loop of \<open>helper\<close> that reads page after page until a page comes back empty. It
  has no bound: against a marketplace that never sends an empty page it does not return.
\<close>

partial_function (option) fetch_pages ::
  "(nat \<Rightarrow> error + assignment list) \<Rightarrow> nat \<Rightarrow> assignment list \<Rightarrow> (error + assignment list) option"
where
  "fetch_pages get i assignments =
     (case get i of
        Inl e \<Rightarrow> Some (Inl e)
      | Inr assignments_subset \<Rightarrow>
          if length assignments_subset > 0
          then fetch_pages get (i + 1) (assignments @ assignments_subset)
          else Some (Inr assignments))"

declare fetch_pages.simps [code]

text \<open>
  The rows one assignment adds to \<open>result\<close>: one for each answer of its first answer
  list whose \<open>qid\<close> is the question. \<open>assignment.answers[0]\<close> and \<open>fields[0]\<close> raise
  \<open>IndexError\<close> on an empty list.
\<close>

fun answer_rows :: "string \<Rightarrow> string \<Rightarrow> assignment \<Rightarrow> question_form_answer list \<Rightarrow> error + string list list" where
  "answer_rows hit_id question a [] = Inr []"
| "answer_rows hit_id question a (question_form_answer # later) =
     (if qid question_form_answer = question
      then ebind (item (qfields question_form_answer) 0) (\<lambda>user_response.
           ebind (answer_rows hit_id question a later) (\<lambda>rest.
           Inr ([hit_id, WorkerId a, AssignmentId a, user_response] # rest)))
      else answer_rows hit_id question a later)"

fun result_rows :: "string \<Rightarrow> string \<Rightarrow> assignment list \<Rightarrow> error + string list list" where
  "result_rows hit_id question [] = Inr []"
| "result_rows hit_id question (a # later) =
     ebind (item (answers a) 0) (\<lambda>question_form_answers.
     ebind (answer_rows hit_id question a question_form_answers) (\<lambda>here.
     ebind (result_rows hit_id question later) (\<lambda>rest.
     Inr (here @ rest))))"

text \<open>\<open>pd.DataFrame(result, columns=...)\<close>: the rows are labelled 0, 1, 2, ...\<close>

definition data_frame :: "string list list \<Rightarrow> string list \<Rightarrow> frame" where
  "data_frame result cols = \<lparr> columns = cols, rows = zip [0..<length result] result \<rparr>"

definition key_cols :: "string list" where
  "key_cols = [''HITID'', ''WorkerID'', ''AssignmentID'']"

definition helper :: "world \<Rightarrow> string \<Rightarrow> string \<Rightarrow> (error + frame) option" where
  "helper w hit_id question =
     (case fetch_pages (get_assignments w hit_id) 1 [] of
        None \<Rightarrow> None
      | Some fetched \<Rightarrow>
          Some (ebind fetched (\<lambda>assignments.
                ebind (result_rows hit_id question assignments) (\<lambda>result.
                Inr (data_frame result (key_cols @ [question]))))))"

fun all_frames :: "world \<Rightarrow> string \<Rightarrow> string list \<Rightarrow> (error + frame list) option" where
  "all_frames w hit_id [] = Some (Inr [])"
| "all_frames w hit_id (question # later) =
     (case helper w hit_id question of
        None \<Rightarrow> None
      | Some (Inl e) \<Rightarrow> Some (Inl e)
      | Some (Inr df) \<Rightarrow>
          (case all_frames w hit_id later of
             None \<Rightarrow> None
           | Some rest \<Rightarrow> Some (ebind rest (\<lambda>dfs. Inr (df # dfs)))))"

subsection \<open>get_mturk_results: the merge\<close>

text \<open>The cell of a row under a column label (the first column of that label).\<close>

definition cell :: "string list \<Rightarrow> string list \<Rightarrow> string \<Rightarrow> string option" where
  "cell cols r label = map_of (zip cols r) label"

text \<open>
  \<open>pd.merge(left, right, on=key_cols)\<close>, an inner join. A key label that one of the
  frames does not have raises \<open>KeyError\<close>. The result has the columns of \<open>left\<close> and
  then the columns of \<open>right\<close> that are not keys; a label the two share outside the keys
  gets the suffixes \<open>_x\<close> and \<open>_y\<close>. Its rows are, for each row of \<open>left\<close> in order,
  the rows of \<open>right\<close> with the same key cells, and they are labelled anew from 0. The
  model follows pandas on frames whose labels are distinct, the only ones the module
  builds when the questions are distinct and none is named like a key.
\<close>

definition pd_merge :: "frame \<Rightarrow> frame \<Rightarrow> error + frame" where
  "pd_merge left right =
     (if list_all (\<lambda>k. k \<in> set (columns left)) key_cols \<and> list_all (\<lambda>k. k \<in> set (columns right)) key_cols
      then
        let shared = filter (\<lambda>c. c \<in> set (columns right) \<and> c \<notin> set key_cols) (columns left);
            left_cols = map (\<lambda>c. if c \<in> set shared then c @ ''_x'' else c) (columns left);
            right_cols = map (\<lambda>c. if c \<in> set shared then c @ ''_y'' else c)
                           (filter (\<lambda>c. c \<notin> set key_cols) (columns right));
            key_of = (\<lambda>cols r. map (cell cols r) key_cols);
            rest_of = (\<lambda>r. map snd (filter (\<lambda>(c, v). c \<notin> set key_cols) (zip (columns right) r)));
            joined = concat (map (\<lambda>(i, l).
                       map (\<lambda>(j, r). l @ rest_of r)
                         (filter (\<lambda>(j, r). key_of (columns right) r = key_of (columns left) l) (rows right)))
                       (rows left))
        in Inr \<lparr> columns = left_cols @ right_cols, rows = zip [0..<length joined] joined \<rparr>
      else Inl KeyError)"

fun merge_loop :: "frame \<Rightarrow> frame list \<Rightarrow> error + frame" where
  "merge_loop mergedPanda [] = Inr mergedPanda"
| "merge_loop mergedPanda (panda # later) =
     ebind (pd_merge mergedPanda panda) (\<lambda>m. merge_loop m later)"

text \<open>
  The \<open>try\<close> block of \<open>get_mturk_results\<close>. Only a \<open>ValueError\<close> is caught, and
  then the method returns \<open>None\<close>; \<open>allPandas[0]\<close> on an empty list raises
  \<open>IndexError\<close>, which passes through like every other error.
\<close>

definition merge_frames :: "frame list \<Rightarrow> error + frame option" where
  "merge_frames allPandas =
     (case ebind (item allPandas 0) (\<lambda>first. merge_loop first (tl allPandas)) of
        Inl ValueError \<Rightarrow> Inr None
      | Inl e \<Rightarrow> Inl e
      | Inr mergedPanda \<Rightarrow> Inr (Some mergedPanda))"

definition get_mturk_results ::
  "world \<Rightarrow> string \<Rightarrow> string list \<Rightarrow> survey \<Rightarrow> ((error + frame option) \<times> survey) option" where
  "get_mturk_results w hit_id questionList s =
     (case all_frames w hit_id questionList of
        None \<Rightarrow> None
      | Some (Inl e) \<Rightarrow> Some (Inl e, s)
      | Some (Inr allPandas) \<Rightarrow>
          (case merge_frames allPandas of
             Inl e \<Rightarrow> Some (Inl e, s)
           | Inr None \<Rightarrow> Some (Inr None, s)
           | Inr (Some mergedPanda) \<Rightarrow>
               Some (Inr (Some mergedPanda), s\<lparr>mturk_resp := Some mergedPanda\<rparr>)))"

subsection \<open>filter_mturk_results\<close>

text \<open>
  \<open>pd.concat\<close> of the frames of all tasks. It drops the entries that are \<open>None\<close>
  and raises \<open>ValueError\<close> when nothing is left. The frames of one survey all have the
  columns of the same question list; the rows are put one after the other, and every row
  keeps the label it had in its own frame.
\<close>

definition pd_concat :: "frame option list \<Rightarrow> error + frame" where
  "pd_concat objs =
     (case concat (map (\<lambda>obj. case obj of None \<Rightarrow> [] | Some f \<Rightarrow> [f]) objs) of
        [] \<Rightarrow> Inl ValueError
      | f # fs \<Rightarrow> Inr \<lparr> columns = columns f, rows = concat (map rows (f # fs)) \<rparr>)"

text \<open>\<open>x[x.index.isin(y.index)]\<close>: the rows of \<open>x\<close> whose label is a label of \<open>y\<close>.\<close>

definition index_isin :: "frame \<Rightarrow> frame \<Rightarrow> frame" where
  "index_isin x y = x\<lparr>rows := filter (\<lambda>(i, r). i \<in> set (map fst (rows y))) (rows x)\<rparr>"

fun recurse :: "frame list \<Rightarrow> error + frame" where
  "recurse [] = Inl IndexError"
| "recurse [x] = Inr x"
| "recurse (x # y # rest) = recurse (index_isin x y # rest)"

text \<open>
  \<open>x[mask]\<close> for a mask computed cell by cell from column \<open>y\<close>: the rows whose cell
  passes the test, with their labels. (Every row of the frames built here has a cell for
  every column; a row that had none would not pass.)
\<close>

definition where_col :: "frame \<Rightarrow> string \<Rightarrow> (string \<Rightarrow> bool) \<Rightarrow> frame" where
  "where_col x y test =
     x\<lparr>rows := filter (\<lambda>(i, r). case cell (columns x) r y of None \<Rightarrow> False | Some v \<Rightarrow> test v) (rows x)\<rparr>"

text \<open>
  \<open>self.cond_mapping[op](x, y, z)\<close>. A column \<open>y\<close> that the frame does not have
  raises \<open>KeyError\<close>. The comparisons are Python's on strings, the two text operators
  are \<open>str.contains\<close>, which reads \<open>z\<close> as a regular expression.
\<close>

definition cond_mapping_call :: "world \<Rightarrow> string \<Rightarrow> frame \<Rightarrow> string \<Rightarrow> string \<Rightarrow> error + frame" where
  "cond_mapping_call w op x y z =
     (if op \<in> set operators \<and> y \<in> set (columns x)
      then
        if op = ''=='' then Inr (where_col x y (\<lambda>v. v = z))
        else if op = ''!='' then Inr (where_col x y (\<lambda>v. v \<noteq> z))
        else if op = ''>='' then Inr (where_col x y (\<lambda>v. v \<ge> z))
        else if op = ''<='' then Inr (where_col x y (\<lambda>v. v \<le> z))
        else (case re_search w z of
                None \<Rightarrow> Inl RegexError
              | Some found \<Rightarrow>
                  if op = ''contains'' then Inr (where_col x y found)
                  else Inr (where_col x y (\<lambda>v. \<not> found v)))
      else Inl KeyError)"

text \<open>One turn of the loop over the conditions: the operator is the first one of the
  table that occurs in the condition, the condition is split at it.\<close>

definition filter_cond :: "world \<Rightarrow> string list \<Rightarrow> frame \<Rightarrow> string \<Rightarrow> error + frame" where
  "filter_cond w ops valid_results cond =
     ebind (item (matching ops cond) 0) (\<lambda>op.
     ebind (py_split cond ('' '' @ op @ '' '')) (\<lambda>var.
     ebind (item var 0) (\<lambda>var0.
     ebind (item var 1) (\<lambda>var1.
     cond_mapping_call w op valid_results var0 var1))))"

fun filter_conds :: "world \<Rightarrow> string list \<Rightarrow> frame \<Rightarrow> string list \<Rightarrow> error + frame list" where
  "filter_conds w ops valid_results [] = Inr []"
| "filter_conds w ops valid_results (cond # later) =
     ebind (filter_cond w ops valid_results cond) (\<lambda>res.
     ebind (filter_conds w ops valid_results later) (\<lambda>results.
     Inr (res # results)))"

text \<open>The branch on the condition list: what \<open>filtered_mturk_resp\<close> becomes.\<close>

definition apply_conditions :: "world \<Rightarrow> string list option \<Rightarrow> string list \<Rightarrow> frame \<Rightarrow> error + frame" where
  "apply_conditions w mapping conds valid_results =
     (if length conds > 0
      then ebind (attr mapping) (\<lambda>ops.
           ebind (filter_conds w ops valid_results conds) recurse)
      else Inr valid_results)"

text \<open>\<open>list(frame[label])\<close>: the cells of a column, top to bottom. (A row that had no
  cell for the column, which no frame built here has, would give the empty string.)\<close>

definition column_list :: "frame \<Rightarrow> string \<Rightarrow> error + string list" where
  "column_list f label =
     (if label \<in> set (columns f)
      then Inr (map (\<lambda>(i, r). case cell (columns f) r label of None \<Rightarrow> [] | Some v \<Rightarrow> v) (rows f))
      else Inl KeyError)"

text \<open>The list comprehension over \<open>HITlist\<close>, each turn a call of \<open>get_mturk_results\<close>.\<close>

fun results_per_hit ::
  "world \<Rightarrow> string list \<Rightarrow> string list \<Rightarrow> survey \<Rightarrow> ((error + frame option list) \<times> survey) option" where
  "results_per_hit w qs [] s = Some (Inr [], s)"
| "results_per_hit w qs (hit_id # later) s =
     (case get_mturk_results w hit_id qs s of
        None \<Rightarrow> None
      | Some (Inl e, s1) \<Rightarrow> Some (Inl e, s1)
      | Some (Inr f, s1) \<Rightarrow>
          (case results_per_hit w qs later s1 of
             None \<Rightarrow> None
           | Some (Inl e, s2) \<Rightarrow> Some (Inl e, s2)
           | Some (Inr fs, s2) \<Rightarrow> Some (Inr (f # fs), s2)))"

text \<open>
  The statements of \<open>filter_mturk_results\<close> after the frames are fetched, in their
  order: each attribute is stored as soon as its statement has run, so an error leaves
  the earlier ones stored.
\<close>

definition store_filtered :: "world \<Rightarrow> frame option list \<Rightarrow> survey \<Rightarrow> (error + unit) \<times> survey" where
  "store_filtered w fetched s =
     (case pd_concat fetched of
        Inl e \<Rightarrow> (Inl e, s)
      | Inr valid_results \<Rightarrow>
     (case ebind (attr (conditions s)) (\<lambda>conds. apply_conditions w (cond_mapping s) conds valid_results) of
        Inl e \<Rightarrow> (Inl e, s)
      | Inr filtered \<Rightarrow>
     let s1 = s\<lparr>filtered_mturk_resp := Some filtered\<rparr> in
     (case column_list valid_results ''AssignmentID'' of
        Inl e \<Rightarrow> (Inl e, s1)
      | Inr a \<Rightarrow>
     let s2 = s1\<lparr>allAssignments := Some a\<rparr> in
     (case column_list valid_results ''WorkerID'' of
        Inl e \<Rightarrow> (Inl e, s2)
      | Inr u \<Rightarrow>
     let s3 = s2\<lparr>allUsers := Some u\<rparr> in
     (case column_list filtered ''AssignmentID'' of
        Inl e \<Rightarrow> (Inl e, s3)
      | Inr fa \<Rightarrow>
     let s4 = s3\<lparr>filteredAssignments := Some fa\<rparr> in
     (case column_list filtered ''WorkerID'' of
        Inl e \<Rightarrow> (Inl e, s4)
      | Inr fu \<Rightarrow> (Inr (), s4\<lparr>filteredUsers := Some fu\<rparr>)))))))"

definition filter_mturk_results :: "world \<Rightarrow> survey \<Rightarrow> ((error + unit) \<times> survey) option" where
  "filter_mturk_results w s =
     (case results_per_hit w (questions s) (HITlist s) s of
        None \<Rightarrow> None
      | Some (Inl e, s1) \<Rightarrow> Some (Inl e, s1)
      | Some (Inr fetched, s1) \<Rightarrow> Some (store_filtered w fetched s1))"

text \<open>A method that starts with \<open>self.filter_mturk_results()\<close> and goes on if that
  returned.\<close>

definition after_filter ::
  "world \<Rightarrow> survey \<Rightarrow> (survey \<Rightarrow> ((error + 'a) \<times> survey) option) \<Rightarrow> ((error + 'a) \<times> survey) option" where
  "after_filter w s rest =
     (case filter_mturk_results w s of
        None \<Rightarrow> None
      | Some (Inl e, s1) \<Rightarrow> Some (Inl e, s1)
      | Some (Inr u, s1) \<Rightarrow> rest s1)"

definition return_all_users :: "world \<Rightarrow> survey \<Rightarrow> ((error + string list) \<times> survey) option" where
  "return_all_users w s = after_filter w s (\<lambda>s1. Some (attr (allUsers s1), s1))"

definition return_filtered_users :: "world \<Rightarrow> survey \<Rightarrow> ((error + string list) \<times> survey) option" where
  "return_filtered_users w s = after_filter w s (\<lambda>s1. Some (attr (filteredUsers s1), s1))"

subsection \<open>Mail\<close>

text \<open>
  \<open>send_reminder_emails\<close>: one request per entry of the list, in order. Whatever the
  request raises is caught and leaves a failure entry in the result.
\<close>

fun send_reminder_emails ::
  "world \<Rightarrow> string list \<Rightarrow> string \<Rightarrow> string \<Rightarrow> survey \<Rightarrow> mail_result list \<times> survey" where
  "send_reminder_emails w [] subj msg s = ([], s)"
| "send_reminder_emails w (user # later) subj msg s =
     (let s1 = s\<lparr>calls := calls s @ [Notify user subj (msg @ user)]\<rparr>;
          entry = (case notify_workers w user subj (msg @ user) of
                     Inr notify \<Rightarrow> Sent user notify
                   | Inl e \<Rightarrow> Failure (''Could not email user: '' @ user));
          (result, s2) = send_reminder_emails w later subj msg s1
      in (entry # result, s2))"

definition first_message :: "survey \<Rightarrow> string" where
  "first_message s =
     ''Hello,\<newline>'' @
     ''\<newline>'' @
     ''        Based on your responses to the screening question,\<newline>'' @
     ''        you've been selected to participate in the second\<newline>'' @
     ''        part of the survey.\<newline>'' @
     ''\<newline>'' @
     ''        Please go to '' @
     srvy_link s @
     '' to complete additional\<newline>'' @
     ''        questions. At the end of the survey, you will be prompted\<newline>'' @
     ''        to enter a payment code to verify that you were selected\<newline>'' @
     ''        to fill out the survey. When asked, please enter the code\<newline>'' @
     ''        below. Upon completion, you will be awarded a bonus.\<newline>'' @
     ''\<newline>'' @
     ''        Thanks for your participation!\<newline>'' @
     ''\<newline>'' @
     ''        Sincerely,\<newline>'' @
     ''        '' @
     from_name s @
     ''\<newline>'' @
     ''\<newline>'' @
     ''        ### Your reward code is: ''"

definition second_message :: "survey \<Rightarrow> string" where
  "second_message s =
     ''Hello,\<newline>'' @
     ''\<newline>'' @
     ''        We sent you an email recently about completing additional\<newline>'' @
     ''        questions for the Mturk Survey. We'd really appreciate\<newline>'' @
     ''        your time in helping us improve our products further.\<newline>'' @
     ''\<newline>'' @
     ''        As a reminder, please go to '' @
     srvy_link s @
     '' to complete\<newline>'' @
     ''        additional questions. At the end of the Survey, you will\<newline>'' @
     ''        be prompted to enter a payment code to verify that you were\<newline>'' @
     ''        selected to fill out the survey. When asked, please enter the\<newline>'' @
     ''        code below. Upon completion, you will be awarded a bonus.\<newline>'' @
     ''\<newline>'' @
     ''        NOTE: If you are receiving this email, but have already completed\<newline>'' @
     ''        the Survey, you may have entered the Survey code incorrectly.\<newline>'' @
     ''        Please redo the survey, ensuring that the code matches the above,\<newline>'' @
     ''        to receive your compensation.\<newline>'' @
     ''\<newline>'' @
     ''        Thanks for your participation!\<newline>'' @
     ''\<newline>'' @
     ''        Sincerely,\<newline>'' @
     ''        '' @
     from_name s @
     ''\<newline>'' @
     ''\<newline>'' @
     ''        ### Your reward code is: ''"

definition send_first_mailer :: "world \<Rightarrow> survey \<Rightarrow> (error + mail_result list) \<times> survey" where
  "send_first_mailer w s =
     (case attr (filteredUsers s) of
        Inl e \<Rightarrow> (Inl e, s)
      | Inr users \<Rightarrow>
          (let (result, s1) = send_reminder_emails w users
                 ''Please take second part of Survey for bonus'' (first_message s) s
           in (Inr result, s1)))"

definition send_second_mailer :: "world \<Rightarrow> survey \<Rightarrow> (error + mail_result list) \<times> survey" where
  "send_second_mailer w s =
     (case attr (remaining s) of
        Inl e \<Rightarrow> (Inl e, s)
      | Inr users \<Rightarrow>
          (let (result, s1) = send_reminder_emails w users
                 ''[Reminder] Bonus for participating in second part of Survey'' (second_message s) s
           in (Inr result, s1)))"

subsection \<open>get_results\<close>

text \<open>
  \<open>df[self.srvy_q_text].values.tolist()\<close> for the frame made of the rows after the
  header row, short rows being filled up with \<open>None\<close>. A label that no column has raises
  \<open>KeyError\<close>; a label that several columns have gives one list of cells per row.
\<close>

definition cell_of :: "string list \<Rightarrow> nat \<Rightarrow> pyval" where
  "cell_of r i = (if i < length r then PStr (r ! i) else PNone)"

definition sheet_column :: "string \<Rightarrow> string list \<Rightarrow> string list list \<Rightarrow> error + pyval list" where
  "sheet_column label header body =
     (case filter (\<lambda>i. header ! i = label) [0..<length header] of
        [] \<Rightarrow> Inl KeyError
      | [i] \<Rightarrow> Inr (map (\<lambda>r. cell_of r i) body)
      | i # j # later \<Rightarrow> Inr (map (\<lambda>r. PList (map (cell_of r) (i # j # later))) body))"

text \<open>
  \<open>get_results\<close> raises \<open>NotImplementedError\<close> in the base class. In \<open>GoogleForms\<close>
  it returns \<open>None\<close> and stores nothing when the sheet is empty. Otherwise it stores the
  completion list, the filtered users found in it and the filtered users not found in
  it. \<open>list(set(...))\<close> is a list without repetitions in an order Python does not
  fix; it is only ever tested for membership, and is modelled as the set.
\<close>

definition get_results :: "world \<Rightarrow> survey \<Rightarrow> (error + string list list option) \<times> survey" where
  "get_results w s =
     (case klass s of
        Survey \<Rightarrow> (Inl NotImplementedError, s)
      | GoogleForms label \<Rightarrow>
          (case sheet_values w of
             Inl e \<Rightarrow> (Inl e, s)
           | Inr [] \<Rightarrow> (Inr None, s)
           | Inr (header # body) \<Rightarrow>
               (case sheet_column label header body of
                  Inl e \<Rightarrow> (Inl e, s)
                | Inr cl \<Rightarrow>
                    let s1 = s\<lparr>completeList := Some cl\<rparr> in
                    (case attr (filteredUsers s1) of
                       Inl e \<Rightarrow> (Inl e, s1)
                     | Inr users \<Rightarrow>
                         let actual = set (filter (\<lambda>user. PStr user \<in> set cl) users);
                             s2 = s1\<lparr>completeActual := Some actual\<rparr>;
                             s3 = s2\<lparr>remaining := Some (filter (\<lambda>user. user \<notin> actual) users)\<rparr>
                         in (Inr (Some (header # body)), s3\<lparr>results := Some (header # body)\<rparr>)))))"

text \<open>A method that starts with \<open>self.filter_mturk_results()\<close> and
  \<open>self.get_results()\<close>.\<close>

definition after_results ::
  "world \<Rightarrow> survey \<Rightarrow> (survey \<Rightarrow> (error + 'a) \<times> survey) \<Rightarrow> ((error + 'a) \<times> survey) option" where
  "after_results w s rest =
     after_filter w s (\<lambda>s1.
       case get_results w s1 of
         (Inl e, s2) \<Rightarrow> Some (Inl e, s2)
       | (Inr r, s2) \<Rightarrow> Some (rest s2))"

definition return_completed :: "world \<Rightarrow> survey \<Rightarrow> ((error + string set) \<times> survey) option" where
  "return_completed w s = after_results w s (\<lambda>s2. (attr (completeActual s2), s2))"

definition return_remaining :: "world \<Rightarrow> survey \<Rightarrow> ((error + string list) \<times> survey) option" where
  "return_remaining w s = after_results w s (\<lambda>s2. (attr (remaining s2), s2))"

subsection \<open>award_bonus\<close>

text \<open>
  \<open>currentPanda.set_index('WorkerID').to_dict(orient='index')\<close>, as far as the loop
  reads it: for each worker of the frame the \<open>AssignmentID\<close> of the worker's last row,
  the workers in the order of their first rows.
\<close>

fun dict_insert :: "(string \<times> string) list \<Rightarrow> string \<times> string \<Rightarrow> (string \<times> string) list" where
  "dict_insert [] (k, v) = [(k, v)]"
| "dict_insert ((k', v') # d) (k, v) = (if k' = k then (k', v) # d else (k', v') # dict_insert d (k, v))"

definition hit_dict :: "frame \<Rightarrow> string \<Rightarrow> string set \<Rightarrow> error + (string \<times> string) list" where
  "hit_dict f hit workerList =
     (if list_all (\<lambda>k. k \<in> set (columns f)) key_cols
      then Inr (foldl dict_insert []
             (concat (map (\<lambda>(i, r).
                case (cell (columns f) r ''HITID'', cell (columns f) r ''WorkerID'', cell (columns f) r ''AssignmentID'') of
                  (Some h, Some u, Some a) \<Rightarrow> if h = hit \<and> u \<in> workerList then [(u, a)] else []
                | other \<Rightarrow> []) (rows f))))
      else Inl KeyError)"

text \<open>The loop over the workers of one task. With \<open>debug\<close> set nothing is requested;
  otherwise a bonus is requested for each, and an error of the request ends the method.
  The budget that the method adds up is only printed, and is not modelled.\<close>

fun pay_users :: "world \<Rightarrow> rat \<Rightarrow> bool \<Rightarrow> (string \<times> string) list \<Rightarrow> survey \<Rightarrow> (error + unit) \<times> survey" where
  "pay_users w amount debug [] s = (Inr (), s)"
| "pay_users w amount debug ((user, asg) # later) s =
     (if debug then pay_users w amount debug later s
      else
        let s1 = s\<lparr>calls := calls s @
                   [GrantBonus user asg amount ''Thanks for completing the second part of the Survey!'']\<rparr>
        in (case grant_bonus w user asg amount ''Thanks for completing the second part of the Survey!'' of
              Inl e \<Rightarrow> (Inl e, s1)
            | Inr bonus \<Rightarrow> pay_users w amount debug later s1))"

fun pay_hits :: "world \<Rightarrow> rat \<Rightarrow> bool \<Rightarrow> string set \<Rightarrow> string list \<Rightarrow> survey \<Rightarrow> (error + unit) \<times> survey" where
  "pay_hits w amount debug workerList [] s = (Inr (), s)"
| "pay_hits w amount debug workerList (hit # later) s =
     (case ebind (attr (filtered_mturk_resp s)) (\<lambda>f. hit_dict f hit workerList) of
        Inl e \<Rightarrow> (Inl e, s)
      | Inr pandaDict \<Rightarrow>
          (case pay_users w amount debug pandaDict s of
             (Inl e, s1) \<Rightarrow> (Inl e, s1)
           | (Inr u, s1) \<Rightarrow> pay_hits w amount debug workerList later s1))"

definition award_bonus ::
  "world \<Rightarrow> rat \<Rightarrow> string list option \<Rightarrow> bool \<Rightarrow> survey \<Rightarrow> ((error + unit) \<times> survey) option" where
  "award_bonus w amount customList debug s =
     after_results w s (\<lambda>s2.
       case (case customList of Some l \<Rightarrow> Inr (set l) | None \<Rightarrow> attr (completeActual s2)) of
         Inl e \<Rightarrow> (Inl e, s2)
       | Inr workerList \<Rightarrow> pay_hits w amount debug workerList (HITlist s2) s2)"

subsection \<open>merge\<close>

definition merge :: "world \<Rightarrow> string option \<Rightarrow> survey \<Rightarrow> ((error + joined_frame) \<times> survey) option" where
  "merge w csv_fname s =
     after_results w s (\<lambda>s2.
       case ebind (attr (filtered_mturk_resp s2)) (\<lambda>f.
            ebind (attr (results s2)) (\<lambda>sheet.
            case klass s2 of
              Survey \<Rightarrow> Inl AttributeError
            | GoogleForms label \<Rightarrow> ebind (sheet_merge w f sheet label) (\<lambda>m1. Inr (m1, label)))) of
         Inl e \<Rightarrow> (Inl e, s2)
       | Inr (m1, label) \<Rightarrow>
           let s3 = s2\<lparr>merged := Some m1\<rparr> in
           (case drop_column w m1 label of
              Inl e \<Rightarrow> (Inl e, s3)
            | Inr m2 \<Rightarrow>
                let s4 = s3\<lparr>merged := Some m2\<rparr> in
                (case set_index w m2 ''WorkerID'' of
                   Inl e \<Rightarrow> (Inl e, s4)
                 | Inr m3 \<Rightarrow>
                     let s5 = s4\<lparr>merged := Some m3\<rparr> in
                     (case csv_fname of
                        None \<Rightarrow> (Inr m3, s5)
                      | Some name \<Rightarrow>
                          if name = [] then (Inr m3, s5)
                          else (case to_csv w m3 name of
                                  Inl e \<Rightarrow> (Inl e, s5)
                                | Inr u \<Rightarrow> (Inr m3, s5))))))"

subsection \<open>Notions used in the statements\<close>

text \<open>The answers of a submission: the first answer list of the assignment.\<close>

definition first_answers :: "assignment \<Rightarrow> question_form_answer list" where
  "first_answers a = (case answers a of [] \<Rightarrow> [] | xs # later \<Rightarrow> xs)"

text \<open>The submission \<open>aid\<close> of worker \<open>wid\<close> is among the fetched ones and answers
  question \<open>q\<close>.\<close>

definition answered :: "assignment list \<Rightarrow> string \<Rightarrow> string \<Rightarrow> string \<Rightarrow> bool" where
  "answered fetched q wid aid =
     list_ex (\<lambda>a. WorkerId a = wid \<and> AssignmentId a = aid \<and> list_ex (\<lambda>x. qid x = q) (first_answers a))
       fetched"

text \<open>What the marketplace sends when nothing is malformed: every assignment has an
  answer list, and every answer to a question that is asked for has a field.\<close>

definition well_formed :: "string list \<Rightarrow> assignment list \<Rightarrow> bool" where
  "well_formed qs fetched =
     list_all (\<lambda>a. answers a \<noteq> []
                 \<and> list_all (\<lambda>x. qfields x \<noteq> []) (filter (\<lambda>x. qid x \<in> set qs) (first_answers a)))
       fetched"

text \<open>The frame has a row for submission \<open>aid\<close> of worker \<open>wid\<close> to task \<open>hit\<close>.\<close>

definition has_row :: "frame \<Rightarrow> string \<Rightarrow> string \<Rightarrow> string \<Rightarrow> bool" where
  "has_row m hit wid aid =
     list_ex (\<lambda>(i, r). map (cell (columns m) r) key_cols = [Some hit, Some wid, Some aid]) (rows m)"

text \<open>The frame has the three key columns.\<close>

definition has_keys :: "frame \<Rightarrow> bool" where
  "has_keys f = list_all (\<lambda>k. k \<in> set (columns f)) key_cols"

text \<open>
  The shape of every frame \<open>get_mturk_results\<close> handles: the key columns come first
  and every row has its key cells. \<open>row_keys\<close> are the key cells found in a frame.
\<close>

definition keyed :: "frame \<Rightarrow> bool" where
  "keyed f = (take 3 (columns f) = key_cols \<and> list_all (\<lambda>(i, r). 3 \<le> length r) (rows f))"

definition row_keys :: "frame \<Rightarrow> string list set" where
  "row_keys f = take 3 ` snd ` set (rows f)"

text \<open>Page \<open>k\<close> of a task, empty when the request raises.\<close>

definition page_of :: "(nat \<Rightarrow> error + assignment list) \<Rightarrow> nat \<Rightarrow> assignment list" where
  "page_of get k = (case get k of Inl e \<Rightarrow> [] | Inr page \<Rightarrow> page)"




text \<open>The rows \<open>helper\<close> builds for a question when no answer is malformed.\<close>

definition rows_for :: "string \<Rightarrow> string \<Rightarrow> assignment list \<Rightarrow> string list list" where
  "rows_for hit q fetched =
     concat (map (\<lambda>a. map (\<lambda>x. [hit, WorkerId a, AssignmentId a, hd (qfields x)])
                          (filter (\<lambda>x. qid x = q) (first_answers a))) fetched)"

subsection \<open>A small marketplace\<close>

text \<open>
  Task \<open>T1\<close> asks \<open>Q1\<close> and \<open>Q2\<close>. Worker \<open>R1\<close> answered both, worker \<open>R2\<close>
  only \<open>Q1\<close>. Both assignments come on the first page, the second page is empty. The
  spreadsheet has the codes \<open>R1\<close> and \<open>R3\<close> in its column \<open>Code\<close>.
\<close>

definition respondent_R1 :: assignment where
  "respondent_R1 =
     \<lparr> WorkerId = ''R1'', AssignmentId = ''A1'',
       answers = [[\<lparr>qid = ''Q1'', qfields = [''yes'']\<rparr>, \<lparr>qid = ''Q2'', qfields = [''5'']\<rparr>]] \<rparr>"

definition respondent_R2 :: assignment where
  "respondent_R2 =
     \<lparr> WorkerId = ''R2'', AssignmentId = ''A2'',
       answers = [[\<lparr>qid = ''Q1'', qfields = [''no'']\<rparr>]] \<rparr>"

definition small_world :: world where
  "small_world =
     \<lparr> get_assignments =
         (\<lambda>hit n. if hit = ''T1'' \<and> n = 1 then Inr [respondent_R1, respondent_R2] else Inr []),
       notify_workers = (\<lambda>user subj msg. if user = ''R2'' then Inl RequestError else Inr ''sent''),
       grant_bonus = (\<lambda>user asg amount msg. Inr ''granted''),
       sheet_values = Inr [[''Timestamp'', ''Code''], [''Monday'', ''R1''], [''Tuesday'', ''R3'']],
       re_search = (\<lambda>pat. Some (str_in pat)),
       sheet_merge = (\<lambda>f v q. Inl KeyError),
       drop_column = (\<lambda>j q. Inl KeyError),
       set_index = (\<lambda>j q. Inl KeyError),
       to_csv = (\<lambda>j name. Inr ()) \<rparr>"

text \<open>The merged frame of task \<open>T1\<close> there.\<close>

definition frame_T1 :: frame where
  "frame_T1 =
     \<lparr> columns = [''HITID'', ''WorkerID'', ''AssignmentID'', ''Q1'', ''Q2''],
       rows = [(0, [''T1'', ''R1'', ''A1'', ''yes'', ''5''])] \<rparr>"



subsection \<open>Two tasks\<close>

text \<open>
  A second marketplace: worker \<open>R2\<close> took both tasks, \<open>T1\<close> and \<open>T2\<close>, with
  different answers. Every task has one submission, which is the first row of the
  task's frame, so both rows of the concatenated frame carry the label 0.
\<close>

definition worker_R2_T1 :: assignment where
  "worker_R2_T1 =
     \<lparr> WorkerId = ''R2'', AssignmentId = ''A3'',
       answers = [[\<lparr>qid = ''Q1'', qfields = [''yes'']\<rparr>, \<lparr>qid = ''Q2'', qfields = [''3'']\<rparr>]] \<rparr>"

definition worker_R2_T2 :: assignment where
  "worker_R2_T2 =
     \<lparr> WorkerId = ''R2'', AssignmentId = ''A4'',
       answers = [[\<lparr>qid = ''Q1'', qfields = [''no'']\<rparr>, \<lparr>qid = ''Q2'', qfields = [''5'']\<rparr>]] \<rparr>"

definition two_task_world :: world where
  "two_task_world =
     small_world\<lparr> get_assignments :=
         (\<lambda>hit n. if n = 1 \<and> hit = ''T1'' then Inr [worker_R2_T1]
                   else if n = 1 \<and> hit = ''T2'' then Inr [worker_R2_T2]
                   else Inr []) \<rparr>"

definition two_task_valid :: frame where
  "two_task_valid =
     \<lparr> columns = [''HITID'', ''WorkerID'', ''AssignmentID'', ''Q1'', ''Q2''],
       rows = [(0, [''T1'', ''R2'', ''A3'', ''yes'', ''3'']), (0, [''T2'', ''R2'', ''A4'', ''no'', ''5''])] \<rparr>"

subsection \<open>Filtering by all conditions at once\<close>

text \<open>
  Following the words of the specification, not the code: the result of filtering the
  frame by the logical AND of all conditions keeps the rows of which every condition
  holds. A condition holds of a row when the condition, applied to the frame made of
  that row alone, keeps the row.
\<close>

definition cond_holds :: "world \<Rightarrow> string list \<Rightarrow> string list \<Rightarrow> string \<Rightarrow> nat \<times> string list \<Rightarrow> bool" where
  "cond_holds w ops cols cond row =
     (case filter_cond w ops \<lparr> columns = cols, rows = [row] \<rparr> cond of
        Inl e \<Rightarrow> False
      | Inr f \<Rightarrow> rows f = [row])"

definition filter_and :: "world \<Rightarrow> string list \<Rightarrow> string list \<Rightarrow> frame \<Rightarrow> frame" where
  "filter_and w ops conds valid_results =
     valid_results\<lparr>rows :=
       filter (\<lambda>row. list_all (\<lambda>cond. cond_holds w ops (columns valid_results) cond row) conds)
         (rows valid_results)\<rparr>"

subsection \<open>What the fetch leaves in the object\<close>

text \<open>What a run of the fetch leaves in the object: nothing, or the merged frame of the last task.\<close>

definition keep_frame :: "frame option \<Rightarrow> survey \<Rightarrow> survey" where
  "keep_frame kept s = (case kept of None \<Rightarrow> s | Some m \<Rightarrow> s\<lparr>mturk_resp := Some m\<rparr>)"

section \<open>Properties\<close>

subsection \<open>Strings\<close>

lemma matching_nonempty: "(matching ops cond \<noteq> []) = list_ex (\<lambda>f. str_in f cond) ops"
  by (simp add: matching_def filter_empty_conv list_ex_iff)

subsection \<open>The fetch loop returns when an empty page comes\<close>

text \<open>
  If the pages \<open>i\<close>, \<dots>, \<open>i + n - 1\<close> are not empty and page \<open>i + n\<close> is, the
  loop started at page \<open>i\<close> returns the assignments of these pages in order.
\<close>

lemma fetch_pages_returns:
  assumes "\<And>k. k < n \<Longrightarrow> \<not> isl (get (i + k)) \<and> page_of get (i + k) \<noteq> []"
    and "get (i + n) = Inr []"
  shows "fetch_pages get i acc = Some (Inr (acc @ concat (map (\<lambda>k. page_of get (i + k)) [0..<n])))"
  using assms
proof (induction n arbitrary: i acc)
  case 0
  then show ?case by (simp add: fetch_pages.simps)
next
  case (Suc n)
  from Suc.prems(1) [of 0] obtain page where page: "get i = Inr page" "page \<noteq> []"
    by (cases "get i") (auto simp: page_of_def)
  have "fetch_pages get (Suc i) (acc @ page)
      = Some (Inr ((acc @ page) @ concat (map (\<lambda>k. page_of get (Suc i + k)) [0..<n])))"
  proof (rule Suc.IH)
    fix k assume "k < n"
    then show "\<not> isl (get (Suc i + k)) \<and> page_of get (Suc i + k) \<noteq> []"
      using Suc.prems(1) [of "Suc k"] by simp
  next
    show "get (Suc i + n) = Inr []" using Suc.prems(2) by simp
  qed
  moreover have "concat (map (\<lambda>k. page_of get (i + k)) [0..<Suc n])
      = page @ concat (map (\<lambda>k. page_of get (Suc i + k)) [0..<n])"
  proof -
    have "[0..<Suc n] = 0 # map Suc [0..<n]" by (simp add: upt_conv_Cons map_Suc_upt del: upt_Suc)
    then show ?thesis by (simp add: page page_of_def comp_def del: upt_Suc)
  qed
  ultimately show ?case
    using page by (subst fetch_pages.simps) simp
qed

subsection \<open>The merge keeps the keys that both frames have\<close>

lemma cell_key:
  assumes "take 3 cols = key_cols" "3 \<le> length r"
  shows "map (cell cols r) key_cols = map Some (take 3 r)"
proof -
  from assms(1) obtain cs where cols: "cols = ''HITID'' # ''WorkerID'' # ''AssignmentID'' # cs"
    by (cases cols; cases "tl cols"; cases "tl (tl cols)") (auto simp: key_cols_def numeral_3_eq_3)
  from assms(2) obtain a b c rs where r: "r = a # b # c # rs"
    by (cases r; cases "tl r"; cases "tl (tl r)") (auto simp: numeral_3_eq_3)
  show ?thesis by (simp add: cols r cell_def key_cols_def numeral_3_eq_3)
qed

lemma snd_zip_upt: "map snd (zip [0..<length xs] xs) = xs"
  by (simp add: map_snd_zip)

lemma keyed_has_keys: "keyed f \<Longrightarrow> list_all (\<lambda>k. k \<in> set (columns f)) key_cols"
proof -
  assume "keyed f"
  then have "set key_cols \<subseteq> set (columns f)"
    unfolding keyed_def by (metis set_take_subset)
  then show ?thesis by (auto simp: list_all_iff)
qed

lemma take3_rename:
  assumes "take 3 cols = key_cols" "\<And>c. c \<in> set key_cols \<Longrightarrow> g c = c"
  shows "take 3 (map g cols @ more_cols) = key_cols"
proof -
  from assms(1) obtain cs where cols: "cols = ''HITID'' # ''WorkerID'' # ''AssignmentID'' # cs"
    by (cases cols; cases "tl cols"; cases "tl (tl cols)") (auto simp: key_cols_def numeral_3_eq_3)
  show ?thesis using assms(2) by (simp add: cols key_cols_def numeral_3_eq_3)
qed

lemma pd_merge_keyed:
  assumes l: "keyed l" and r: "keyed r"
  shows "\<exists>m. pd_merge l r = Inr m \<and> keyed m \<and> row_keys m = row_keys l \<inter> row_keys r"
proof -
  define rest_of where "rest_of = (\<lambda>r' :: string list. map snd (filter (\<lambda>(c, v). c \<notin> set key_cols) (zip (columns r) r')))"
  define joined where "joined = concat (map (\<lambda>(i, l').
                       map (\<lambda>(j, r'). l' @ rest_of r')
                         (filter (\<lambda>(j, r'). map (cell (columns r) r') key_cols = map (cell (columns l) l') key_cols) (rows r)))
                       (rows l))"
  define shared where "shared = filter (\<lambda>c. c \<in> set (columns r) \<and> c \<notin> set key_cols) (columns l)"
  define m where "m = \<lparr> columns = map (\<lambda>c. if c \<in> set shared then c @ ''_x'' else c) (columns l) @
       map (\<lambda>c. if c \<in> set shared then c @ ''_y'' else c) (filter (\<lambda>c. c \<notin> set key_cols) (columns r)),
       rows = zip [0..<length joined] joined \<rparr>"
  have eq: "pd_merge l r = Inr m"
    using keyed_has_keys [OF l] keyed_has_keys [OF r]
    by (simp add: pd_merge_def Let_def m_def joined_def rest_of_def shared_def)
  have lrows: "\<And>i l'. (i, l') \<in> set (rows l) \<Longrightarrow> 3 \<le> length l'"
    using l by (auto simp: keyed_def list_all_iff)
  have rrows: "\<And>j r'. (j, r') \<in> set (rows r) \<Longrightarrow> 3 \<le> length r'"
    using r by (auto simp: keyed_def list_all_iff)
  have lkey: "\<And>i l'. (i, l') \<in> set (rows l) \<Longrightarrow> map (cell (columns l) l') key_cols = map Some (take 3 l')"
    using l lrows by (intro cell_key) (auto simp: keyed_def)
  have rkey: "\<And>j r'. (j, r') \<in> set (rows r) \<Longrightarrow> map (cell (columns r) r') key_cols = map Some (take 3 r')"
    using r rrows by (intro cell_key) (auto simp: keyed_def)
  have inj: "\<And>xs ys :: string list. (map Some xs = map Some ys) = (xs = ys)"
    by (simp add: inj_map_eq_map)
  have mem_joined: "\<And>x. x \<in> set joined \<longleftrightarrow>
      (\<exists>i l' j r'. (i, l') \<in> set (rows l) \<and> (j, r') \<in> set (rows r)
         \<and> map (cell (columns r) r') key_cols = map (cell (columns l) l') key_cols \<and> x = l' @ rest_of r')"
    unfolding joined_def by (auto simp: image_iff)
  have mem_joined': "\<And>x. x \<in> set joined \<longleftrightarrow>
      (\<exists>i l' j r'. (i, l') \<in> set (rows l) \<and> (j, r') \<in> set (rows r)
         \<and> take 3 r' = take 3 l' \<and> x = l' @ rest_of r')"
    unfolding mem_joined using lkey rkey inj by (metis (no_types, lifting))
  have snd_rows: "snd ` set (rows m) = set joined"
    by (simp add: m_def flip: set_map)
  have cols: "take 3 (columns m) = key_cols"
    unfolding m_def frame.select_convs
  proof (rule take3_rename)
    show "take 3 (columns l) = key_cols" using l by (simp add: keyed_def)
    fix c assume "c \<in> set key_cols"
    then show "(if c \<in> set shared then c @ ''_x'' else c) = c" by (simp add: shared_def)
  qed
  have len3: "\<And>x. x \<in> set joined \<Longrightarrow> 3 \<le> length x"
    unfolding mem_joined' using lrows by fastforce
  have len: "list_all (\<lambda>(i, r). 3 \<le> length r) (rows m)"
    unfolding list_all_iff
  proof (intro ballI)
    fix p assume "p \<in> set (rows m)"
    then have "snd p \<in> set joined" using snd_rows by blast
    then show "case p of (i, r) \<Rightarrow> 3 \<le> length r" using len3 by (cases p) simp
  qed
  have "row_keys m = take 3 ` set joined"
    by (simp only: row_keys_def snd_rows)
  also have "\<dots> = row_keys l \<inter> row_keys r"
  proof (intro set_eqI iffI)
    fix k assume "k \<in> take 3 ` set joined"
    then obtain x where x: "x \<in> set joined" "k = take 3 x" by auto
    from x(1) obtain i l' j r' where *: "(i, l') \<in> set (rows l)" "(j, r') \<in> set (rows r)"
        "take 3 r' = take 3 l'" "x = l' @ rest_of r'"
      unfolding mem_joined' by blast
    from lrows [OF *(1)] have "k = take 3 l'" using *(4) x(2) by simp
    with * show "k \<in> row_keys l \<inter> row_keys r"
      unfolding row_keys_def by (force simp: image_iff)
  next
    fix k assume "k \<in> row_keys l \<inter> row_keys r"
    then obtain i l' j r' where *: "(i, l') \<in> set (rows l)" "(j, r') \<in> set (rows r)"
        "k = take 3 l'" "k = take 3 r'"
      unfolding row_keys_def by (auto simp: image_iff)
    then have "l' @ rest_of r' \<in> set joined" unfolding mem_joined' by metis
    moreover have "take 3 (l' @ rest_of r') = k" using lrows [OF *(1)] *(3) by simp
    ultimately show "k \<in> take 3 ` set joined" by (metis image_eqI)
  qed
  finally have "row_keys m = row_keys l \<inter> row_keys r" .
  with eq cols len show ?thesis by (auto simp: keyed_def)
qed

subsection \<open>What get_mturk_results returns\<close>

lemma answer_rows_ok:
  "list_all (\<lambda>x. qfields x \<noteq> []) (filter (\<lambda>x. qid x = q) xs) \<Longrightarrow>
   answer_rows hit q a xs =
     Inr (map (\<lambda>x. [hit, WorkerId a, AssignmentId a, hd (qfields x)]) (filter (\<lambda>x. qid x = q) xs))"
  by (induction xs) (auto simp: ebind_def item_def hd_conv_nth)

lemma result_rows_ok:
  assumes "well_formed qs fetched" "q \<in> set qs"
  shows "result_rows hit q fetched = Inr (rows_for hit q fetched)"
  using assms(1)
proof (induction fetched)
  case Nil
  then show ?case by (simp add: rows_for_def)
next
  case (Cons a fetched)
  from Cons.prems have a: "answers a \<noteq> []"
    and f: "list_all (\<lambda>x. qfields x \<noteq> []) (filter (\<lambda>x. qid x \<in> set qs) (first_answers a))"
    and rest: "well_formed qs fetched"
    by (simp_all add: well_formed_def)
  from f assms(2) have "list_all (\<lambda>x. qfields x \<noteq> []) (filter (\<lambda>x. qid x = q) (first_answers a))"
    by (auto simp: list_all_iff)
  then have here: "answer_rows hit q a (first_answers a) =
     Inr (map (\<lambda>x. [hit, WorkerId a, AssignmentId a, hd (qfields x)]) (filter (\<lambda>x. qid x = q) (first_answers a)))"
    by (rule answer_rows_ok)
  from a have it: "item (answers a) 0 = Inr (first_answers a)"
    by (cases "answers a") (simp_all add: item_def first_answers_def)
  show ?case
    using Cons.IH [OF rest] here it by (simp add: ebind_def rows_for_def)
qed

lemma helper_ok:
  assumes "fetch_pages (get_assignments w hit) 1 [] = Some (Inr fetched)"
    and "well_formed qs fetched" "q \<in> set qs"
  shows "helper w hit q = Some (Inr (data_frame (rows_for hit q fetched) (key_cols @ [q])))"
  using assms(1) result_rows_ok [OF assms(2,3)] by (simp add: helper_def ebind_def)

lemma all_frames_ok:
  assumes "fetch_pages (get_assignments w hit) 1 [] = Some (Inr fetched)"
    and "well_formed qs fetched" "set qs' \<subseteq> set qs"
  shows "all_frames w hit qs' =
     Some (Inr (map (\<lambda>q. data_frame (rows_for hit q fetched) (key_cols @ [q])) qs'))"
  using assms(3)
proof (induction qs')
  case Nil
  then show ?case by simp
next
  case (Cons q qs')
  then have "q \<in> set qs" "set qs' \<subseteq> set qs" by auto
  then show ?case
    using Cons.IH helper_ok [OF assms(1,2), of q] by (simp add: ebind_def)
qed

lemma data_frame_keyed: "keyed (data_frame (rows_for hit q fetched) (key_cols @ [q]))"
proof -
  have "\<And>r. r \<in> set (rows_for hit q fetched) \<Longrightarrow> 3 \<le> length r"
    by (auto simp: rows_for_def)
  then have "\<And>p. p \<in> set (zip [0..<length (rows_for hit q fetched)] (rows_for hit q fetched)) \<Longrightarrow> 3 \<le> length (snd p)"
    by (metis set_zip_rightD prod.collapse)
  then show ?thesis
    by (auto simp: keyed_def data_frame_def key_cols_def list_all_iff)
qed

lemma data_frame_row_keys:
  "row_keys (data_frame (rows_for hit q fetched) (key_cols @ [q])) =
     {[hit, wid, aid] | wid aid. answered fetched q wid aid}"
proof -
  have "row_keys (data_frame (rows_for hit q fetched) (key_cols @ [q])) = take 3 ` set (rows_for hit q fetched)"
    by (simp add: row_keys_def data_frame_def flip: set_map)
  also have "\<dots> = {[hit, wid, aid] | wid aid. answered fetched q wid aid}"
    by (auto simp: rows_for_def answered_def list_ex_iff image_iff numeral_3_eq_3) blast+
  finally show ?thesis .
qed

lemma merge_loop_keyed:
  assumes "keyed m0" "list_all keyed ps"
  shows "\<exists>m. merge_loop m0 ps = Inr m \<and> keyed m \<and> row_keys m = row_keys m0 \<inter> (\<Inter>p\<in>set ps. row_keys p)"
  using assms
proof (induction ps arbitrary: m0)
  case Nil
  then show ?case by simp
next
  case (Cons p ps)
  then have p: "keyed p" and ps: "list_all keyed ps" by simp_all
  from pd_merge_keyed [OF Cons.prems(1) p] obtain m1 where
    m1: "pd_merge m0 p = Inr m1" "keyed m1" "row_keys m1 = row_keys m0 \<inter> row_keys p" by blast
  from Cons.IH [OF m1(2) ps] obtain m where
    m: "merge_loop m1 ps = Inr m" "keyed m" "row_keys m = row_keys m1 \<inter> (\<Inter>p\<in>set ps. row_keys p)" by blast
  show ?case using m1 m by (auto simp: ebind_def)
qed

lemma has_row_keyed:
  assumes "keyed m"
  shows "has_row m hit wid aid \<longleftrightarrow> [hit, wid, aid] \<in> row_keys m"
proof -
  have "\<And>i r. (i, r) \<in> set (rows m) \<Longrightarrow>
      (map (cell (columns m) r) key_cols = [Some hit, Some wid, Some aid]) = (take 3 r = [hit, wid, aid])"
  proof -
    fix i r assume "(i, r) \<in> set (rows m)"
    with assms have "map (cell (columns m) r) key_cols = map Some (take 3 r)"
      by (intro cell_key) (auto simp: keyed_def list_all_iff)
    then show "(map (cell (columns m) r) key_cols = [Some hit, Some wid, Some aid]) = (take 3 r = [hit, wid, aid])"
      by (auto simp: map_eq_Cons_conv)
  qed
  then have key: "\<And>p. p \<in> set (rows m) \<Longrightarrow>
      (map (cell (columns m) (snd p)) key_cols = [Some hit, Some wid, Some aid]) = (take 3 (snd p) = [hit, wid, aid])"
    by (metis prod.collapse)
  show ?thesis
  proof
    assume "has_row m hit wid aid"
    then have "\<exists>p\<in>set (rows m). map (cell (columns m) (snd p)) key_cols = [Some hit, Some wid, Some aid]"
      unfolding has_row_def list_ex_iff split_def .
    then obtain p where p: "p \<in> set (rows m)"
        "map (cell (columns m) (snd p)) key_cols = [Some hit, Some wid, Some aid]" ..
    have "take 3 (snd p) = [hit, wid, aid]" using key [OF p(1)] p(2) by (rule iffD1)
    with p(1) show "[hit, wid, aid] \<in> row_keys m"
      unfolding row_keys_def by (metis image_eqI)
  next
    assume "[hit, wid, aid] \<in> row_keys m"
    then obtain p where p: "p \<in> set (rows m)" "take 3 (snd p) = [hit, wid, aid]"
      unfolding row_keys_def by auto
    have "map (cell (columns m) (snd p)) key_cols = [Some hit, Some wid, Some aid]"
      using key [OF p(1)] p(2) by (rule iffD2)
    with p(1) have "\<exists>p\<in>set (rows m). map (cell (columns m) (snd p)) key_cols = [Some hit, Some wid, Some aid]"
      by (intro bexI)
    then show "has_row m hit wid aid"
      unfolding has_row_def list_ex_iff split_def .
  qed
qed

lemma get_mturk_results_merged:
  assumes fetch: "fetch_pages (get_assignments w hit) 1 [] = Some (Inr fetched)"
    and wf: "well_formed qs fetched" and ne: "qs \<noteq> []"
  shows "\<exists>m. get_mturk_results w hit qs s = Some (Inr (Some m), s\<lparr>mturk_resp := Some m\<rparr>)
           \<and> keyed m
           \<and> row_keys m = {[hit, wid, aid] | wid aid. list_all (\<lambda>q. answered fetched q wid aid) qs}"
proof -
  define fr where "fr = (\<lambda>q. data_frame (rows_for hit q fetched) (key_cols @ [q]))"
  from ne obtain q0 qs' where qs: "qs = q0 # qs'" by (cases qs) auto
  have frames: "all_frames w hit qs = Some (Inr (map fr qs))"
    unfolding fr_def by (rule all_frames_ok [OF fetch wf]) simp
  have "keyed (fr q0)" "list_all keyed (map fr qs')"
    by (simp_all add: fr_def data_frame_keyed list_all_iff)
  from merge_loop_keyed [OF this] obtain m where
    m: "merge_loop (fr q0) (map fr qs') = Inr m" "keyed m"
       "row_keys m = row_keys (fr q0) \<inter> (\<Inter>p\<in>set (map fr qs'). row_keys p)" by blast
  have "merge_frames (map fr qs) = Inr (Some m)"
    using m(1) by (simp add: merge_frames_def qs item_def ebind_def)
  then have res: "get_mturk_results w hit qs s = Some (Inr (Some m), s\<lparr>mturk_resp := Some m\<rparr>)"
    using frames by (simp add: get_mturk_results_def)
  have "row_keys m = {[hit, wid, aid] | wid aid. list_all (\<lambda>q. answered fetched q wid aid) qs}"
    unfolding m(3) qs by (auto simp: fr_def data_frame_row_keys list_all_iff)
  with res m(2) show ?thesis by blast
qed



lemma pd_merge_has_keys:
  assumes "pd_merge l r = Inr m"
  shows "has_keys m"
proof -
  from assms have l: "has_keys l"
    by (auto simp: pd_merge_def has_keys_def split: if_splits)
  have "\<And>k. k \<in> set key_cols \<Longrightarrow> k \<in> set (columns m)"
  proof -
    fix k assume k: "k \<in> set key_cols"
    with l have "k \<in> set (columns l)" by (auto simp: has_keys_def list_all_iff)
    with k assms show "k \<in> set (columns m)"
      by (auto simp: pd_merge_def Let_def image_iff split: if_splits)
  qed
  then show ?thesis by (auto simp: has_keys_def list_all_iff)
qed






text \<open>
  C5. Inner join. When the fetch loop returns and no answer is malformed,
  \<open>get_mturk_results\<close> returns a frame and stores it, and the frame has a row for a
  submission exactly when the submission answers every question of the list. A
  submission that lacks an answer to one of the questions has no row. (The question
  labels are taken to be distinct and different from the key labels, which is where the
  model of the pandas join is the join.)
\<close>

theorem get_mturk_results_inner_join:
  assumes "fetch_pages (get_assignments w hit) 1 [] = Some (Inr fetched)"
    and "well_formed qs fetched" and "qs \<noteq> []" and "distinct (key_cols @ qs)"
  shows "\<exists>m. get_mturk_results w hit qs s = Some (Inr (Some m), s\<lparr>mturk_resp := Some m\<rparr>)
           \<and> (\<forall>wid aid. has_row m hit wid aid = list_all (\<lambda>q. answered fetched q wid aid) qs)"
proof -
  from get_mturk_results_merged [OF assms(1-3), of s] obtain m where
    m: "get_mturk_results w hit qs s = Some (Inr (Some m), s\<lparr>mturk_resp := Some m\<rparr>)" "keyed m"
       "row_keys m = {[hit, wid, aid] | wid aid. list_all (\<lambda>q. answered fetched q wid aid) qs}"
    by blast
  have "\<And>wid aid. has_row m hit wid aid = list_all (\<lambda>q. answered fetched q wid aid) qs"
    by (simp add: has_row_keyed [OF m(2)] m(3))
  with m(1) show ?thesis by blast
qed

lemma small_world_fetch:
  "fetch_pages (get_assignments small_world ''T1'') 1 [] = Some (Inr [respondent_R1, respondent_R2])"
  by (simp add: fetch_pages.simps small_world_def)

lemma small_world_merged:
  "get_mturk_results small_world ''T1'' [''Q1'', ''Q2''] s =
     Some (Inr (Some \<lparr> columns = [''HITID'', ''WorkerID'', ''AssignmentID'', ''Q1'', ''Q2''],
                        rows = [(0, [''T1'', ''R1'', ''A1'', ''yes'', ''5''])] \<rparr>),
           s\<lparr>mturk_resp := Some \<lparr> columns = [''HITID'', ''WorkerID'', ''AssignmentID'', ''Q1'', ''Q2''],
                                    rows = [(0, [''T1'', ''R1'', ''A1'', ''yes'', ''5''])] \<rparr>\<rparr>)"
  by (simp add: get_mturk_results_def helper_def small_world_fetch [unfolded One_nat_def]
      respondent_R1_def respondent_R2_def ebind_def item_def data_frame_def key_cols_def
      merge_frames_def pd_merge_def cell_def)

text \<open>The scenario of the claim: one row for \<open>R1\<close>, none for \<open>R2\<close>.\<close>

theorem get_mturk_results_inner_join_witness:
  "fetch_pages (get_assignments small_world ''T1'') 1 [] = Some (Inr [respondent_R1, respondent_R2])
   \<and> well_formed [''Q1'', ''Q2''] [respondent_R1, respondent_R2]
   \<and> [''Q1'', ''Q2''] \<noteq> ([] :: string list)
   \<and> distinct (key_cols @ [''Q1'', ''Q2''])
   \<and> (\<exists>m. get_mturk_results small_world ''T1'' [''Q1'', ''Q2''] (init Survey [''T1''] [''Q1'', ''Q2''] ''link'' ''me'')
             = Some (Inr (Some m), (init Survey [''T1''] [''Q1'', ''Q2''] ''link'' ''me'')\<lparr>mturk_resp := Some m\<rparr>)
          \<and> has_row m ''T1'' ''R1'' ''A1'' \<and> \<not> has_row m ''T1'' ''R2'' ''A2''
          \<and> map snd (rows m) = [[''T1'', ''R1'', ''A1'', ''yes'', ''5'']])"
proof -
  have wf: "well_formed [''Q1'', ''Q2''] [respondent_R1, respondent_R2]"
    by (simp add: well_formed_def first_answers_def respondent_R1_def respondent_R2_def)
  have ne: "[''Q1'', ''Q2''] \<noteq> ([] :: string list)" by simp
  have di: "distinct (key_cols @ [''Q1'', ''Q2''])" by (simp add: key_cols_def)
  have r1: "list_all (\<lambda>q. answered [respondent_R1, respondent_R2] q ''R1'' ''A1'') [''Q1'', ''Q2'']"
    by (simp add: answered_def first_answers_def respondent_R1_def respondent_R2_def)
  have r2: "\<not> list_all (\<lambda>q. answered [respondent_R1, respondent_R2] q ''R2'' ''A2'') [''Q1'', ''Q2'']"
    by (simp add: answered_def first_answers_def respondent_R1_def respondent_R2_def)
  from get_mturk_results_inner_join [OF small_world_fetch wf ne di,
      of "init Survey [''T1''] [''Q1'', ''Q2''] ''link'' ''me''"]
  obtain m where m:
    "get_mturk_results small_world ''T1'' [''Q1'', ''Q2''] (init Survey [''T1''] [''Q1'', ''Q2''] ''link'' ''me'')
       = Some (Inr (Some m), (init Survey [''T1''] [''Q1'', ''Q2''] ''link'' ''me'')\<lparr>mturk_resp := Some m\<rparr>)"
    "\<And>wid aid. has_row m ''T1'' wid aid
       = list_all (\<lambda>q. answered [respondent_R1, respondent_R2] q wid aid) [''Q1'', ''Q2'']"
    by blast
  from m(1) have "m = \<lparr> columns = [''HITID'', ''WorkerID'', ''AssignmentID'', ''Q1'', ''Q2''],
                        rows = [(0, [''T1'', ''R1'', ''A1'', ''yes'', ''5''])] \<rparr>"
    by (simp add: small_world_merged)
  then have rws: "map snd (rows m) = [[''T1'', ''R1'', ''A1'', ''yes'', ''5'']]" by simp
  have h1: "has_row m ''T1'' ''R1'' ''A1''" using m(2) [of "''R1''" "''A1''"] r1 by (rule iffD2)
  have h2: "\<not> has_row m ''T1'' ''R2'' ''A2''"
  proof
    assume "has_row m ''T1'' ''R2'' ''A2''"
    with m(2) [of "''R2''" "''A2''"] have "list_all (\<lambda>q. answered [respondent_R1, respondent_R2] q ''R2'' ''A2'') [''Q1'', ''Q2'']"
      by (rule iffD1)
    with r2 show False ..
  qed
  have "\<exists>m. get_mturk_results small_world ''T1'' [''Q1'', ''Q2''] (init Survey [''T1''] [''Q1'', ''Q2''] ''link'' ''me'')
             = Some (Inr (Some m), (init Survey [''T1''] [''Q1'', ''Q2''] ''link'' ''me'')\<lparr>mturk_resp := Some m\<rparr>)
          \<and> has_row m ''T1'' ''R1'' ''A1'' \<and> \<not> has_row m ''T1'' ''R2'' ''A2''
          \<and> map snd (rows m) = [[''T1'', ''R1'', ''A1'', ''yes'', ''5'']]"
    using m(1) h1 h2 rws by (intro exI [of _ m] conjI)
  with small_world_fetch wf ne di show ?thesis by (intro conjI)
qed





subsection \<open>Mail, entry by entry\<close>









subsection \<open>The spreadsheet: completed and remaining\<close>

lemma get_results_eq:
  assumes "klass s = GoogleForms label" "sheet_values w = Inr (header # body)"
    and "sheet_column label header body = Inr cl" "filteredUsers s = Some users"
  shows "get_results w s =
     (Inr (Some (header # body)),
      s\<lparr>completeList := Some cl,
        completeActual := Some (set (filter (\<lambda>user. PStr user \<in> set cl) users)),
        remaining := Some (filter (\<lambda>user. user \<notin> set (filter (\<lambda>user. PStr user \<in> set cl) users)) users),
        results := Some (header # body)\<rparr>)"
  using assms by (simp add: get_results_def attr_def Let_def)

text \<open>
  C2. When the sheet has rows and a column of the label asked for, \<open>get_results\<close>
  stores as completed exactly the filtered users that are entries of the completion
  list, compared as strings; being a set, it holds every such user once. An entry of the
  completion list that is not a filtered user is not in it.
\<close>

theorem get_results_completed:
  assumes "klass s = GoogleForms label" "sheet_values w = Inr (header # body)"
    and "sheet_column label header body = Inr cl" "filteredUsers s = Some users"
  shows "fst (get_results w s) = Inr (Some (header # body))
     \<and> completeActual (snd (get_results w s)) = Some (set users \<inter> {u. PStr u \<in> set cl})"
  unfolding get_results_eq [OF assms] by auto

lemma small_world_column:
  "sheet_column ''Code'' [''Timestamp'', ''Code''] [[''Monday'', ''R1''], [''Tuesday'', ''R3'']]
     = Inr [PStr ''R1'', PStr ''R3'']"
  by (simp add: sheet_column_def cell_of_def upt_rec)


theorem get_results_completed_witness:
  "klass ((init (GoogleForms ''Code'') [''T1''] [''Q1'', ''Q2''] ''link'' ''me'')\<lparr>filteredUsers := Some [''R1'']\<rparr>)
     = GoogleForms ''Code''
   \<and> sheet_values small_world = Inr ([''Timestamp'', ''Code''] # [[''Monday'', ''R1''], [''Tuesday'', ''R3'']])
   \<and> sheet_column ''Code'' [''Timestamp'', ''Code''] [[''Monday'', ''R1''], [''Tuesday'', ''R3'']]
       = Inr [PStr ''R1'', PStr ''R3'']
   \<and> filteredUsers ((init (GoogleForms ''Code'') [''T1''] [''Q1'', ''Q2''] ''link'' ''me'')\<lparr>filteredUsers := Some [''R1'']\<rparr>)
       = Some [''R1'']
   \<and> completeActual (snd (get_results small_world
         ((init (GoogleForms ''Code'') [''T1''] [''Q1'', ''Q2''] ''link'' ''me'')\<lparr>filteredUsers := Some [''R1'']\<rparr>)))
       = Some {''R1''}"
proof -
  let ?s = "(init (GoogleForms ''Code'') [''T1''] [''Q1'', ''Q2''] ''link'' ''me'')\<lparr>filteredUsers := Some [''R1'']\<rparr>"
  have k: "klass ?s = GoogleForms ''Code''" by (simp add: init_def)
  have v: "sheet_values small_world = Inr ([''Timestamp'', ''Code''] # [[''Monday'', ''R1''], [''Tuesday'', ''R3'']])"
    by (simp add: small_world_def)
  have u: "filteredUsers ?s = Some [''R1'']" by simp
  have "set [''R1''] \<inter> {u. PStr u \<in> set [PStr ''R1'', PStr ''R3'']} = {''R1''}" by auto
  with get_results_completed [OF k v small_world_column u]
  have "completeActual (snd (get_results small_world ?s)) = Some {''R1''}" by simp
  with k v small_world_column u show ?thesis by (intro conjI)
qed


lemma get_results_remaining:
  assumes "klass s = GoogleForms label" "sheet_values w = Inr (header # body)"
    and "sheet_column label header body = Inr cl" "filteredUsers s = Some users"
  shows "\<exists>actual rest. completeActual (snd (get_results w s)) = Some actual
           \<and> remaining (snd (get_results w s)) = Some rest
           \<and> set rest = set users - actual \<and> set rest \<inter> actual = {}
           \<and> rest = filter (\<lambda>user. user \<notin> actual) users
           \<and> (distinct users \<longrightarrow> distinct rest)"
  unfolding get_results_eq [OF assms] by auto


subsection \<open>The two tasks, step by step\<close>

lemma two_task_fetch:
  "fetch_pages (get_assignments two_task_world ''T1'') (Suc 0) [] = Some (Inr [worker_R2_T1])"
  "fetch_pages (get_assignments two_task_world ''T2'') (Suc 0) [] = Some (Inr [worker_R2_T2])"
  by (simp_all add: fetch_pages.simps two_task_world_def)

lemma two_task_results:
  "results_per_hit two_task_world [''Q1'', ''Q2''] [''T1'', ''T2''] s =
     Some (Inr [Some \<lparr> columns = [''HITID'', ''WorkerID'', ''AssignmentID'', ''Q1'', ''Q2''],
                        rows = [(0, [''T1'', ''R2'', ''A3'', ''yes'', ''3''])] \<rparr>,
                Some \<lparr> columns = [''HITID'', ''WorkerID'', ''AssignmentID'', ''Q1'', ''Q2''],
                        rows = [(0, [''T2'', ''R2'', ''A4'', ''no'', ''5''])] \<rparr>],
           s\<lparr>mturk_resp := Some \<lparr> columns = [''HITID'', ''WorkerID'', ''AssignmentID'', ''Q1'', ''Q2''],
                        rows = [(0, [''T2'', ''R2'', ''A4'', ''no'', ''5''])] \<rparr>\<rparr>)"
  by (simp add: get_mturk_results_def helper_def two_task_fetch worker_R2_T1_def worker_R2_T2_def
      ebind_def item_def data_frame_def key_cols_def merge_frames_def pd_merge_def cell_def)

lemma two_task_concat:
  "pd_concat [Some \<lparr> columns = [''HITID'', ''WorkerID'', ''AssignmentID'', ''Q1'', ''Q2''],
                        rows = [(0, [''T1'', ''R2'', ''A3'', ''yes'', ''3''])] \<rparr>,
                Some \<lparr> columns = [''HITID'', ''WorkerID'', ''AssignmentID'', ''Q1'', ''Q2''],
                        rows = [(0, [''T2'', ''R2'', ''A4'', ''no'', ''5''])] \<rparr>] = Inr two_task_valid"
  by (simp add: pd_concat_def two_task_valid_def)

lemma two_task_filter_cond:
  "filter_cond two_task_world operators two_task_valid ''Q1 == yes'' =
     Inr (two_task_valid\<lparr>rows := [(0, [''T1'', ''R2'', ''A3'', ''yes'', ''3''])]\<rparr>)"
  "filter_cond two_task_world operators two_task_valid ''Q2 == 5'' =
     Inr (two_task_valid\<lparr>rows := [(0, [''T2'', ''R2'', ''A4'', ''no'', ''5''])]\<rparr>)"
  "filter_cond two_task_world operators two_task_valid ''Q1 != maybe'' = Inr two_task_valid"
  by (simp_all add: filter_cond_def matching_def operators_def ebind_def item_def py_split_def
      cond_mapping_call_def where_col_def cell_def two_task_valid_def)

lemma two_task_apply:
  "apply_conditions two_task_world (Some operators) [''Q1 == yes'', ''Q2 == 5''] two_task_valid =
     Inr (two_task_valid\<lparr>rows := [(0, [''T1'', ''R2'', ''A3'', ''yes'', ''3''])]\<rparr>)"
  by (simp add: apply_conditions_def attr_def ebind_def two_task_filter_cond index_isin_def)


lemma two_task_filter_and:
  "filter_and two_task_world operators [''Q1 == yes'', ''Q2 == 5''] two_task_valid = two_task_valid\<lparr>rows := []\<rparr>"
  by (simp add: filter_and_def cond_holds_def filter_cond_def matching_def operators_def ebind_def item_def
      py_split_def cond_mapping_call_def where_col_def cell_def two_task_valid_def)

lemma two_task_store:
  assumes "cond_mapping s = Some operators" "conditions s = Some [''Q1 == yes'', ''Q2 == 5'']"
  shows "store_filtered two_task_world
     [Some \<lparr> columns = [''HITID'', ''WorkerID'', ''AssignmentID'', ''Q1'', ''Q2''],
              rows = [(0, [''T1'', ''R2'', ''A3'', ''yes'', ''3''])] \<rparr>,
      Some \<lparr> columns = [''HITID'', ''WorkerID'', ''AssignmentID'', ''Q1'', ''Q2''],
              rows = [(0, [''T2'', ''R2'', ''A4'', ''no'', ''5''])] \<rparr>] s =
   (Inr (), s\<lparr>filtered_mturk_resp := Some (two_task_valid\<lparr>rows := [(0, [''T1'', ''R2'', ''A3'', ''yes'', ''3''])]\<rparr>),
       allAssignments := Some [''A3'', ''A4''], allUsers := Some [''R2'', ''R2''],
       filteredAssignments := Some [''A3''], filteredUsers := Some [''R2'']\<rparr>)"
  using assms
  by (simp add: store_filtered_def two_task_concat attr_def ebind_def two_task_apply)
     (simp add: column_list_def cell_def two_task_valid_def)

lemma two_task_store_all:
  assumes "cond_mapping s = Some operators" "conditions s = Some [''Q1 != maybe'']"
  shows "store_filtered two_task_world
     [Some \<lparr> columns = [''HITID'', ''WorkerID'', ''AssignmentID'', ''Q1'', ''Q2''],
              rows = [(0, [''T1'', ''R2'', ''A3'', ''yes'', ''3''])] \<rparr>,
      Some \<lparr> columns = [''HITID'', ''WorkerID'', ''AssignmentID'', ''Q1'', ''Q2''],
              rows = [(0, [''T2'', ''R2'', ''A4'', ''no'', ''5''])] \<rparr>] s =
   (Inr (), s\<lparr>filtered_mturk_resp := Some two_task_valid,
       allAssignments := Some [''A3'', ''A4''], allUsers := Some [''R2'', ''R2''],
       filteredAssignments := Some [''A3'', ''A4''], filteredUsers := Some [''R2'', ''R2'']\<rparr>)"
  using assms
  by (simp add: store_filtered_def two_task_concat attr_def ebind_def apply_conditions_def two_task_filter_cond)
     (simp add: column_list_def cell_def two_task_valid_def)

lemma two_task_sheet:
  "sheet_values two_task_world = Inr ([''Timestamp'', ''Code''] # [[''Monday'', ''R1''], [''Tuesday'', ''R3'']])"
  by (simp add: two_task_world_def small_world_def)

text \<open>
  C9. The claim has \<open>remaining\<close> be the filtered users that are not completed, with no
  user named twice. The first half holds (\<open>get_results_remaining\<close> above). The second
  fails at this input: worker \<open>R2\<close> took both tasks, passes the screen in both and is
  not in the completion list, and \<open>return_remaining\<close> names the worker twice. The list
  comprehension that builds \<open>remaining\<close> keeps every entry of \<open>filteredUsers\<close>,
  while \<open>completeActual\<close> next to it goes through \<open>set\<close>.
\<close>

theorem remaining_repeats_a_worker:
  "map_option fst
     (return_remaining two_task_world
        (snd (add_conditions [''Q1 != maybe'']
               (init (GoogleForms ''Code'') [''T1'', ''T2''] [''Q1'', ''Q2''] ''link'' ''me''))))
     = Some (Inr [''R2'', ''R2''])
   \<and> \<not> distinct [''R2'', ''R2'']"
proof -
  let ?s = "(init (GoogleForms ''Code'') [''T1'', ''T2''] [''Q1'', ''Q2''] ''link'' ''me'')
          \<lparr>cond_mapping := Some operators, conditions := Some [''Q1 != maybe'']\<rparr>"
  have c: "snd (add_conditions [''Q1 != maybe''] (init (GoogleForms ''Code'') [''T1'', ''T2''] [''Q1'', ''Q2''] ''link'' ''me''))
      = ?s"
    by (simp add: add_conditions_def operators_def)
  have q: "questions ?s = [''Q1'', ''Q2'']" "HITlist ?s = [''T1'', ''T2'']"
    by (simp_all add: init_def)
  have f: "filter_mturk_results two_task_world ?s =
      Some (Inr (), ?s\<lparr>mturk_resp := Some \<lparr> columns = [''HITID'', ''WorkerID'', ''AssignmentID'', ''Q1'', ''Q2''],
                        rows = [(0, [''T2'', ''R2'', ''A4'', ''no'', ''5''])] \<rparr>,
       filtered_mturk_resp := Some two_task_valid,
       allAssignments := Some [''A3'', ''A4''], allUsers := Some [''R2'', ''R2''],
       filteredAssignments := Some [''A3'', ''A4''], filteredUsers := Some [''R2'', ''R2'']\<rparr>)"
    unfolding filter_mturk_results_def q two_task_results
    by (simp add: two_task_store_all)
  show ?thesis
    unfolding c return_remaining_def after_results_def after_filter_def f
    by (simp add: get_results_eq [OF _ two_task_sheet small_world_column] init_def attr_def)
qed


text \<open>
  C1. The claim has the filtered frame be the frame filtered by all conditions at once.
  It is, where the row labels are distinct (\<open>apply_conditions_distinct_labels\<close>
  below), and for one task they are (\<open>one_task_filter\<close>). It fails at this input, with
  two tasks: the first condition holds of the row of task \<open>T1\<close> only, the second of the
  row of task \<open>T2\<close> only, so no row passes both. Both rows carry the label 0, and
  \<open>recurse\<close> keeps the row of \<open>T1\<close>, whose label is found among the labels of the rows
  that passed the second condition.
\<close>

theorem filter_keeps_row_failing_a_condition:
  "map_option (\<lambda>(r, s). (r, filtered_mturk_resp s, filteredUsers s))
     (filter_mturk_results two_task_world
        (snd (add_conditions [''Q1 == yes'', ''Q2 == 5'']
               (init Survey [''T1'', ''T2''] [''Q1'', ''Q2''] ''link'' ''me''))))
     = Some (Inr (), Some (two_task_valid\<lparr>rows := [(0, [''T1'', ''R2'', ''A3'', ''yes'', ''3''])]\<rparr>), Some [''R2''])
   \<and> filter_and two_task_world operators [''Q1 == yes'', ''Q2 == 5''] two_task_valid
     = two_task_valid\<lparr>rows := []\<rparr>"
proof -
  have c: "snd (add_conditions [''Q1 == yes'', ''Q2 == 5''] (init Survey [''T1'', ''T2''] [''Q1'', ''Q2''] ''link'' ''me''))
      = (init Survey [''T1'', ''T2''] [''Q1'', ''Q2''] ''link'' ''me'')
          \<lparr>cond_mapping := Some operators, conditions := Some [''Q1 == yes'', ''Q2 == 5'']\<rparr>"
    by (simp add: add_conditions_def operators_def)
  have q: "questions ((init Survey [''T1'', ''T2''] [''Q1'', ''Q2''] ''link'' ''me'')
          \<lparr>cond_mapping := Some operators, conditions := Some [''Q1 == yes'', ''Q2 == 5'']\<rparr>) = [''Q1'', ''Q2'']"
     "HITlist ((init Survey [''T1'', ''T2''] [''Q1'', ''Q2''] ''link'' ''me'')
          \<lparr>cond_mapping := Some operators, conditions := Some [''Q1 == yes'', ''Q2 == 5'']\<rparr>) = [''T1'', ''T2'']"
    by (simp_all add: init_def)
  show ?thesis
    unfolding c filter_mturk_results_def q two_task_results
    by (simp add: two_task_filter_and two_task_store)
qed


text \<open>
  C7. The claim has filtering a frame by a condition list and filtering the result again
  by the same list give the same frame. They do, where the row labels are distinct
  (\<open>apply_conditions_twice\<close> below), and a second run of the whole pipeline returns
  what the first returned (\<open>screening_twice\<close> below). It fails at this input: filtering
  the frame of the two tasks by the two conditions gives the row of task \<open>T1\<close>, and
  filtering that result again by the same conditions gives no row.
\<close>

theorem filtering_twice_differs:
  "apply_conditions two_task_world (Some operators) [''Q1 == yes'', ''Q2 == 5''] two_task_valid
     = Inr (two_task_valid\<lparr>rows := [(0, [''T1'', ''R2'', ''A3'', ''yes'', ''3''])]\<rparr>)
   \<and> apply_conditions two_task_world (Some operators) [''Q1 == yes'', ''Q2 == 5'']
       (two_task_valid\<lparr>rows := [(0, [''T1'', ''R2'', ''A3'', ''yes'', ''3''])]\<rparr>)
     = Inr (two_task_valid\<lparr>rows := []\<rparr>)"
proof -
  have "apply_conditions two_task_world (Some operators) [''Q1 == yes'', ''Q2 == 5'']
       (two_task_valid\<lparr>rows := [(0, [''T1'', ''R2'', ''A3'', ''yes'', ''3''])]\<rparr>)
     = Inr (two_task_valid\<lparr>rows := []\<rparr>)"
    by (simp add: apply_conditions_def attr_def filter_cond_def matching_def operators_def ebind_def item_def
        py_split_def cond_mapping_call_def where_col_def cell_def two_task_valid_def index_isin_def)
  with two_task_apply show ?thesis by (intro conjI)
qed



subsection \<open>Operations on a survey that has no conditions yet\<close>

lemma get_mturk_results_conditions:
  "get_mturk_results w hit qs s = Some (r, s1) \<Longrightarrow> conditions s1 = conditions s"
  by (auto simp: get_mturk_results_def split: option.splits sum.splits)

lemma results_per_hit_conditions:
  "results_per_hit w qs hits s = Some (r, s1) \<Longrightarrow> conditions s1 = conditions s"
proof (induction hits arbitrary: s r s1)
  case Nil
  then show ?case by simp
next
  case (Cons hit hits)
  show ?case
  proof (cases "get_mturk_results w hit qs s")
    case None
    with Cons.prems show ?thesis by simp
  next
    case (Some p)
    obtain r0 s0 where p: "p = (r0, s0)" by (cases p)
    from Some p have c0: "conditions s0 = conditions s" by (simp add: get_mturk_results_conditions)
    show ?thesis
    proof (cases r0)
      case (Inl e)
      with Cons.prems Some p c0 show ?thesis by simp
    next
      case (Inr f)
      show ?thesis
      proof (cases "results_per_hit w qs hits s0")
        case None
        with Cons.prems Some p Inr show ?thesis by simp
      next
        case (Some p')
        obtain r' s' where p': "p' = (r', s')" by (cases p')
        from Cons.IH [of s0 r' s'] Some p' have "conditions s' = conditions s0" by simp
        with Cons.prems \<open>get_mturk_results w hit qs s = Some p\<close> p Inr Some p' c0 show ?thesis
          by (cases r') auto
      qed
    qed
  qed
qed

lemma store_filtered_no_conditions:
  assumes "conditions s = None"
  shows "store_filtered w fetched s =
     (case pd_concat fetched of Inl e \<Rightarrow> (Inl e, s) | Inr valid \<Rightarrow> (Inl AttributeError, s))"
  using assms by (simp add: store_filtered_def attr_def ebind_def split: sum.splits)

lemma filter_no_conditions:
  assumes "conditions s = None"
  shows "filter_mturk_results w s \<noteq> Some (Inr u, t)"
proof
  assume a: "filter_mturk_results w s = Some (Inr u, t)"
  then obtain fetched s1 where f: "results_per_hit w (questions s) (HITlist s) s = Some (Inr fetched, s1)"
      and st: "store_filtered w fetched s1 = (Inr u, t)"
    by (auto simp: filter_mturk_results_def split: option.splits sum.splits)
  from results_per_hit_conditions [OF f] assms have "conditions s1 = None" by simp
  from store_filtered_no_conditions [OF this, of w fetched] st show False
    by (auto split: sum.splits)
qed

lemma filter_no_conditions_error:
  assumes "conditions s = None"
    and "results_per_hit w (questions s) (HITlist s) s = Some (Inr fetched, s1)"
    and "pd_concat fetched = Inr valid"
  shows "filter_mturk_results w s = Some (Inl AttributeError, s1)"
proof -
  from results_per_hit_conditions [OF assms(2)] assms(1) have "conditions s1 = None" by simp
  from store_filtered_no_conditions [OF this, of w fetched] assms(2,3) show ?thesis
    by (simp add: filter_mturk_results_def)
qed

lemma after_filter_no_conditions:
  assumes "conditions s = None"
  shows "after_filter w s rest \<noteq> Some (Inr r, t)"
proof (cases "filter_mturk_results w s")
  case None
  then show ?thesis by (simp add: after_filter_def)
next
  case (Some p)
  obtain o1 s1 where p: "p = (o1, s1)" by (cases p)
  show ?thesis
  proof (cases o1)
    case (Inl e)
    with Some p show ?thesis by (simp add: after_filter_def)
  next
    case (Inr u)
    with Some p filter_no_conditions [OF assms, of w u s1] show ?thesis by simp
  qed
qed

lemma after_filter_no_conditions_error:
  assumes "filter_mturk_results w s = Some (Inl e, s1)"
  shows "after_filter w s rest = Some (Inl e, s1)"
  using assms by (simp add: after_filter_def)

text \<open>
  C10 (as amended). The condition list exists only once \<open>add_conditions\<close> has
  returned. On a survey that has none, none of the operations that run
  \<open>filter_mturk_results\<close> returns normally: as soon as the frames of all tasks are
  fetched and concatenated the operation raises \<open>AttributeError\<close>, it does not take
  the condition list to be empty. (Before that the fetch may raise an error of its own,
  or not return.) \<open>send_first_mailer\<close> does not run the filter; it raises
  \<open>AttributeError\<close> at once when \<open>filteredUsers\<close> does not exist.
\<close>

theorem operations_need_conditions:
  assumes "conditions s = None"
  shows "return_all_users w s \<noteq> Some (Inr us, t)
       \<and> return_filtered_users w s \<noteq> Some (Inr us, t)
       \<and> award_bonus w amount customList debug s \<noteq> Some (Inr u, t)
       \<and> merge w csv_fname s \<noteq> Some (Inr j, t)
       \<and> return_completed w s \<noteq> Some (Inr finished, t)
       \<and> return_remaining w s \<noteq> Some (Inr us, t)
       \<and> (filteredUsers s = None \<longrightarrow> send_first_mailer w s = (Inl AttributeError, s))
       \<and> (results_per_hit w (questions s) (HITlist s) s = Some (Inr fetched, s') \<and> pd_concat fetched = Inr valid
            \<longrightarrow> return_all_users w s = Some (Inl AttributeError, s')
              \<and> return_filtered_users w s = Some (Inl AttributeError, s')
              \<and> award_bonus w amount customList debug s = Some (Inl AttributeError, s')
              \<and> merge w csv_fname s = Some (Inl AttributeError, s')
              \<and> return_completed w s = Some (Inl AttributeError, s')
              \<and> return_remaining w s = Some (Inl AttributeError, s'))"
proof (intro conjI impI)
  show "return_all_users w s \<noteq> Some (Inr us, t)"
    unfolding return_all_users_def by (rule after_filter_no_conditions [OF assms])
  show "return_filtered_users w s \<noteq> Some (Inr us, t)"
    unfolding return_filtered_users_def by (rule after_filter_no_conditions [OF assms])
  show "award_bonus w amount customList debug s \<noteq> Some (Inr u, t)"
    unfolding award_bonus_def after_results_def by (rule after_filter_no_conditions [OF assms])
  show "merge w csv_fname s \<noteq> Some (Inr j, t)"
    unfolding merge_def after_results_def by (rule after_filter_no_conditions [OF assms])
  show "return_completed w s \<noteq> Some (Inr finished, t)"
    unfolding return_completed_def after_results_def by (rule after_filter_no_conditions [OF assms])
  show "return_remaining w s \<noteq> Some (Inr us, t)"
    unfolding return_remaining_def after_results_def by (rule after_filter_no_conditions [OF assms])
next
  assume "filteredUsers s = None"
  then show "send_first_mailer w s = (Inl AttributeError, s)"
    by (simp add: send_first_mailer_def attr_def)
next
  assume "results_per_hit w (questions s) (HITlist s) s = Some (Inr fetched, s') \<and> pd_concat fetched = Inr valid"
  then have f: "filter_mturk_results w s = Some (Inl AttributeError, s')"
    using filter_no_conditions_error [OF assms] by blast
  show "return_all_users w s = Some (Inl AttributeError, s')"
    unfolding return_all_users_def by (rule after_filter_no_conditions_error [OF f])
  show "return_filtered_users w s = Some (Inl AttributeError, s')"
    unfolding return_filtered_users_def by (rule after_filter_no_conditions_error [OF f])
  show "award_bonus w amount customList debug s = Some (Inl AttributeError, s')"
    unfolding award_bonus_def after_results_def by (rule after_filter_no_conditions_error [OF f])
  show "merge w csv_fname s = Some (Inl AttributeError, s')"
    unfolding merge_def after_results_def by (rule after_filter_no_conditions_error [OF f])
  show "return_completed w s = Some (Inl AttributeError, s')"
    unfolding return_completed_def after_results_def by (rule after_filter_no_conditions_error [OF f])
  show "return_remaining w s = Some (Inl AttributeError, s')"
    unfolding return_remaining_def after_results_def by (rule after_filter_no_conditions_error [OF f])
qed

theorem operations_need_conditions_witness:
  "conditions (init Survey [''T1''] [''Q1'', ''Q2''] ''link'' ''me'') = None
   \<and> filteredUsers (init Survey [''T1''] [''Q1'', ''Q2''] ''link'' ''me'') = None
   \<and> results_per_hit small_world [''Q1'', ''Q2''] [''T1''] (init Survey [''T1''] [''Q1'', ''Q2''] ''link'' ''me'')
       = Some (Inr [Some frame_T1], (init Survey [''T1''] [''Q1'', ''Q2''] ''link'' ''me'')\<lparr>mturk_resp := Some frame_T1\<rparr>)
   \<and> pd_concat [Some frame_T1] = Inr frame_T1
   \<and> send_first_mailer small_world (init Survey [''T1''] [''Q1'', ''Q2''] ''link'' ''me'')
       = (Inl AttributeError, init Survey [''T1''] [''Q1'', ''Q2''] ''link'' ''me'')
   \<and> return_all_users small_world (init Survey [''T1''] [''Q1'', ''Q2''] ''link'' ''me'')
       = Some (Inl AttributeError, (init Survey [''T1''] [''Q1'', ''Q2''] ''link'' ''me'')\<lparr>mturk_resp := Some frame_T1\<rparr>)
   \<and> return_remaining small_world (init Survey [''T1''] [''Q1'', ''Q2''] ''link'' ''me'')
       = Some (Inl AttributeError, (init Survey [''T1''] [''Q1'', ''Q2''] ''link'' ''me'')\<lparr>mturk_resp := Some frame_T1\<rparr>)"
proof -
  let ?s = "init Survey [''T1''] [''Q1'', ''Q2''] ''link'' ''me''"
  have c: "conditions ?s = None" by (simp add: init_def)
  have u: "filteredUsers ?s = None" by (simp add: init_def)
  have r: "results_per_hit small_world [''Q1'', ''Q2''] [''T1''] ?s
       = Some (Inr [Some frame_T1], ?s\<lparr>mturk_resp := Some frame_T1\<rparr>)"
    by (simp add: small_world_merged frame_T1_def)
  have r': "results_per_hit small_world (questions ?s) (HITlist ?s) ?s
       = Some (Inr [Some frame_T1], ?s\<lparr>mturk_resp := Some frame_T1\<rparr>)"
    using r by (simp add: init_def)
  have p: "pd_concat [Some frame_T1] = Inr frame_T1"
    by (simp add: pd_concat_def frame_T1_def)
  note inst = operations_need_conditions [OF c, where w = small_world and fetched = "[Some frame_T1]"
      and s' = "?s\<lparr>mturk_resp := Some frame_T1\<rparr>" and valid = frame_T1]
  from inst u have m: "send_first_mailer small_world ?s = (Inl AttributeError, ?s)" by blast
  from inst r' p have a: "return_all_users small_world ?s
       = Some (Inl AttributeError, ?s\<lparr>mturk_resp := Some frame_T1\<rparr>)" by blast
  from inst r' p have b: "return_remaining small_world ?s
       = Some (Inl AttributeError, ?s\<lparr>mturk_resp := Some frame_T1\<rparr>)" by blast
  from c u r p m a b show ?thesis by (intro conjI)
qed


text \<open>
  The claim as it was stated has every such operation fail with an attribute error on a
  freshly constructed survey. A survey constructed with an empty task list fails in
  \<open>pd.concat\<close>, with \<open>ValueError\<close>, before the conditions are looked at.
\<close>

theorem fresh_survey_value_error_counterexample:
  "return_all_users small_world (init Survey [] [''Q1''] ''link'' ''me'')
     = Some (Inl ValueError, init Survey [] [''Q1''] ''link'' ''me'')"
  by (simp add: return_all_users_def after_filter_def filter_mturk_results_def store_filtered_def
      pd_concat_def init_def)


subsection \<open>Filtering a frame whose row labels are distinct\<close>

text \<open>
  Each condition keeps the rows of which it holds, and where no label is carried by two
  rows \<open>recurse\<close> keeps the rows that all the conditions kept: the result is the
  frame filtered by all conditions at once, and filtering it again changes nothing. The
  frame of one task has distinct labels.
\<close>

lemma cond_mapping_call_test:
  assumes "cond_mapping_call w op x y z = Inr f"
  shows "\<exists>test. \<forall>x'. columns x' = columns x \<longrightarrow> cond_mapping_call w op x' y z = Inr (where_col x' y test)"
proof -
  from assms have ok: "op \<in> set operators \<and> y \<in> set (columns x)"
    by (auto simp: cond_mapping_call_def split: if_splits)
  consider "op = ''==''" | "op = ''!=''" | "op = ''>=''" | "op = ''<=''"
    | "op \<notin> {''=='', ''!='', ''>='', ''<=''}" by auto
  then show ?thesis
  proof cases
    case 1
    with ok show ?thesis by (intro exI [of _ "\<lambda>v. v = z"]) (simp add: cond_mapping_call_def)
  next
    case 2
    with ok show ?thesis by (intro exI [of _ "\<lambda>v. v \<noteq> z"]) (simp add: cond_mapping_call_def)
  next
    case 3
    with ok show ?thesis by (intro exI [of _ "\<lambda>v. v \<ge> z"]) (simp add: cond_mapping_call_def)
  next
    case 4
    with ok show ?thesis by (intro exI [of _ "\<lambda>v. v \<le> z"]) (simp add: cond_mapping_call_def)
  next
    case 5
    with assms ok obtain found where found: "re_search w z = Some found"
      by (auto simp: cond_mapping_call_def split: if_splits option.splits)
    show ?thesis
    proof (cases "op = ''contains''")
      case True
      with 5 ok found show ?thesis by (intro exI [of _ found]) (simp add: cond_mapping_call_def)
    next
      case False
      with 5 ok found show ?thesis
        by (intro exI [of _ "\<lambda>v. \<not> found v"]) (simp add: cond_mapping_call_def)
    qed
  qed
qed

lemma filter_cond_call:
  assumes "filter_cond w ops x cond = Inr f"
  shows "\<exists>op var0 var1. \<forall>x'. filter_cond w ops x' cond = cond_mapping_call w op x' var0 var1"
proof -
  from assms obtain op var var0 var1 where
    p: "item (matching ops cond) 0 = Inr op" "py_split cond ('' '' @ op @ '' '') = Inr var"
       "item var 0 = Inr var0" "item var 1 = Inr var1"
    by (auto simp: filter_cond_def ebind_def split: sum.splits)
  then have "\<forall>x'. filter_cond w ops x' cond = cond_mapping_call w op x' var0 var1"
    by (simp add: filter_cond_def ebind_def)
  then show ?thesis by blast
qed

lemma filter_cond_where:
  assumes "filter_cond w ops x cond = Inr f"
  shows "\<exists>y test. \<forall>x'. columns x' = columns x \<longrightarrow> filter_cond w ops x' cond = Inr (where_col x' y test)"
proof -
  from filter_cond_call [OF assms] obtain op var0 var1 where
    c: "\<And>x'. filter_cond w ops x' cond = cond_mapping_call w op x' var0 var1" by blast
  with assms have "cond_mapping_call w op x var0 var1 = Inr f" by simp
  from cond_mapping_call_test [OF this] c show ?thesis by auto
qed

lemma filter_cond_holds:
  assumes "filter_cond w ops x cond = Inr f"
  shows "f = x\<lparr>rows := filter (cond_holds w ops (columns x) cond) (rows x)\<rparr>"
proof -
  from filter_cond_where [OF assms] obtain y test where
    t: "\<And>x'. columns x' = columns x \<Longrightarrow> filter_cond w ops x' cond = Inr (where_col x' y test)" by blast
  define P where "P = (\<lambda>(i :: nat, r). case cell (columns x) r y of None \<Rightarrow> False | Some v \<Rightarrow> test v)"
  have f: "f = x\<lparr>rows := filter P (rows x)\<rparr>"
    using t [of x] assms by (simp add: where_col_def P_def)
  have "\<And>row. cond_holds w ops (columns x) cond row = P row"
  proof -
    fix row
    have "filter_cond w ops \<lparr>columns = columns x, rows = [row]\<rparr> cond
        = Inr (where_col \<lparr>columns = columns x, rows = [row]\<rparr> y test)"
      by (rule t) simp
    then show "cond_holds w ops (columns x) cond row = P row"
      by (simp add: cond_holds_def where_col_def P_def)
  qed
  then have "filter (cond_holds w ops (columns x) cond) (rows x) = filter P (rows x)"
    by (intro filter_cong) auto
  with f show ?thesis by simp
qed

lemma filter_conds_holds:
  "filter_conds w ops x conds = Inr fs \<Longrightarrow>
   fs = map (\<lambda>cond. x\<lparr>rows := filter (cond_holds w ops (columns x) cond) (rows x)\<rparr>) conds"
proof (induction conds arbitrary: fs)
  case Nil
  then show ?case by simp
next
  case (Cons cond conds)
  from Cons.prems obtain f fs' where
    f: "filter_cond w ops x cond = Inr f" and fs': "filter_conds w ops x conds = Inr fs'" and fs: "fs = f # fs'"
    by (auto simp: ebind_def split: sum.splits)
  from filter_cond_holds [OF f] Cons.IH [OF fs'] fs show ?case by simp
qed

lemma index_isin_filters:
  assumes "distinct (map fst (rows x))"
  shows "index_isin (x\<lparr>rows := filter P (rows x)\<rparr>) (x\<lparr>rows := filter Q (rows x)\<rparr>)
       = x\<lparr>rows := filter (\<lambda>row. P row \<and> Q row) (rows x)\<rparr>"
proof -
  have "\<And>i r. (i, r) \<in> set (rows x) \<Longrightarrow> (i \<in> fst ` {row \<in> set (rows x). Q row}) = Q (i, r)"
  proof -
    fix i r assume m: "(i, r) \<in> set (rows x)"
    show "(i \<in> fst ` {row \<in> set (rows x). Q row}) = Q (i, r)"
    proof
      assume "i \<in> fst ` {row \<in> set (rows x). Q row}"
      then obtain r' where r': "(i, r') \<in> set (rows x)" "Q (i, r')" by auto
      from assms m r'(1) have "r' = r" by (meson eq_key_imp_eq_value)
      with r'(2) show "Q (i, r)" by simp
    next
      assume "Q (i, r)"
      with m show "i \<in> fst ` {row \<in> set (rows x). Q row}" by force
    qed
  qed
  then have "filter (\<lambda>(i, r). i \<in> fst ` {row \<in> set (rows x). Q row}) (filter P (rows x))
      = filter (\<lambda>row. P row \<and> Q row) (rows x)"
    unfolding filter_filter by (intro filter_cong) auto
  then show ?thesis by (simp add: index_isin_def)
qed

lemma recurse_filters:
  assumes "distinct (map fst (rows x))"
  shows "recurse (map (\<lambda>P. x\<lparr>rows := filter P (rows x)\<rparr>) (P # Ps))
       = Inr (x\<lparr>rows := filter (\<lambda>row. P row \<and> list_all (\<lambda>Q. Q row) Ps) (rows x)\<rparr>)"
proof (induction Ps arbitrary: P)
  case Nil
  then show ?case by simp
next
  case (Cons Q Ps)
  have "recurse (map (\<lambda>P. x\<lparr>rows := filter P (rows x)\<rparr>) (P # Q # Ps))
      = recurse (map (\<lambda>P. x\<lparr>rows := filter P (rows x)\<rparr>) ((\<lambda>row. P row \<and> Q row) # Ps))"
    by (simp add: index_isin_filters [OF assms])
  also have "\<dots> = Inr (x\<lparr>rows := filter (\<lambda>row. (P row \<and> Q row) \<and> list_all (\<lambda>Q. Q row) Ps) (rows x)\<rparr>)"
    by (rule Cons.IH)
  finally show ?case by (simp add: conj_assoc)
qed

lemma apply_conditions_distinct_labels:
  assumes d: "distinct (map fst (rows valid))" and ne: "conds \<noteq> []"
    and a: "apply_conditions w (Some ops) conds valid = Inr f"
  shows "f = filter_and w ops conds valid"
proof -
  from a ne obtain fs where fs: "filter_conds w ops valid conds = Inr fs" and r: "recurse fs = Inr f"
    by (auto simp: apply_conditions_def attr_def ebind_def split: sum.splits)
  from ne obtain c cs where conds: "conds = c # cs" by (cases conds) auto
  define H where "H = (\<lambda>cond. cond_holds w ops (columns valid) cond)"
  from filter_conds_holds [OF fs]
  have "fs = map (\<lambda>P. valid\<lparr>rows := filter P (rows valid)\<rparr>) (H c # map H cs)"
    by (simp add: conds H_def comp_def)
  with r recurse_filters [OF d, of "H c" "map H cs"]
  have "f = valid\<lparr>rows := filter (\<lambda>row. H c row \<and> list_all (\<lambda>Q. Q row) (map H cs)) (rows valid)\<rparr>"
    by simp
  then show ?thesis
    by (simp add: filter_and_def conds H_def list_all_iff)
qed


lemma filter_and_nil: "filter_and w ops [] valid = valid"
  by (simp add: filter_and_def)

lemma apply_conditions_nil: "apply_conditions w mapping [] valid = Inr valid"
  by (simp add: apply_conditions_def)

lemma filter_conds_same_columns:
  assumes "filter_conds w ops x conds = Inr fs" "columns x' = columns x"
  shows "\<exists>fs'. filter_conds w ops x' conds = Inr fs'"
  using assms(1)
proof (induction conds arbitrary: fs)
  case Nil
  then show ?case by simp
next
  case (Cons cond conds)
  from Cons.prems obtain f fs0 where
    f: "filter_cond w ops x cond = Inr f" and fs0: "filter_conds w ops x conds = Inr fs0"
    by (auto simp: ebind_def split: sum.splits)
  from filter_cond_where [OF f] assms(2) obtain f' where "filter_cond w ops x' cond = Inr f'" by auto
  moreover from Cons.IH [OF fs0] obtain fs' where "filter_conds w ops x' conds = Inr fs'" by blast
  ultimately show ?case by (simp add: ebind_def)
qed

lemma filter_conds_recurse:
  assumes "filter_conds w ops x conds = Inr fs" "conds \<noteq> []" "distinct (map fst (rows x))"
  shows "\<exists>f. recurse fs = Inr f"
proof -
  from assms(2) obtain c cs where conds: "conds = c # cs" by (cases conds) auto
  define H where "H = (\<lambda>cond. cond_holds w ops (columns x) cond)"
  from filter_conds_holds [OF assms(1)]
  have "fs = map (\<lambda>P. x\<lparr>rows := filter P (rows x)\<rparr>) (H c # map H cs)"
    by (simp add: conds H_def comp_def)
  with recurse_filters [OF assms(3), of "H c" "map H cs"] show ?thesis by simp
qed

lemma apply_conditions_twice:
  assumes d: "distinct (map fst (rows valid))"
    and a: "apply_conditions w (Some ops) conds valid = Inr f"
  shows "apply_conditions w (Some ops) conds f = Inr f"
proof (cases "conds = []")
  case True
  then show ?thesis by (simp add: apply_conditions_def)
next
  case False
  from apply_conditions_distinct_labels [OF d False a] have f: "f = filter_and w ops conds valid" .
  then have cols: "columns f = columns valid" by (simp add: filter_and_def)
  from f d have df: "distinct (map fst (rows f))" by (simp add: filter_and_def distinct_map_filter)
  from a False obtain fs where fs: "filter_conds w ops valid conds = Inr fs"
    by (auto simp: apply_conditions_def attr_def ebind_def split: sum.splits)
  from filter_conds_same_columns [OF fs cols] obtain fs' where fs': "filter_conds w ops f conds = Inr fs'"
    by blast
  from filter_conds_recurse [OF fs' False df] obtain f' where "recurse fs' = Inr f'" by blast
  with fs' False have a': "apply_conditions w (Some ops) conds f = Inr f'"
    by (simp add: apply_conditions_def attr_def ebind_def)
  from apply_conditions_distinct_labels [OF df False a'] have "f' = filter_and w ops conds f" .
  also have "\<dots> = f" by (simp add: f filter_and_def)
  finally show ?thesis using a' by simp
qed

lemma data_frame_labels: "distinct (map fst (rows (data_frame result cols)))"
  by (simp add: data_frame_def)

lemma pd_merge_labels: "pd_merge l r = Inr m \<Longrightarrow> distinct (map fst (rows m))"
  by (auto simp: pd_merge_def Let_def split: if_splits)

lemma merge_loop_labels:
  "merge_loop m0 ps = Inr m \<Longrightarrow> distinct (map fst (rows m0)) \<Longrightarrow> distinct (map fst (rows m))"
proof (induction ps arbitrary: m0)
  case Nil
  then show ?case by simp
next
  case (Cons p ps)
  from Cons.prems(1) obtain m1 where m1: "pd_merge m0 p = Inr m1" and r: "merge_loop m1 ps = Inr m"
    by (auto simp: ebind_def split: sum.splits)
  from Cons.IH [OF r pd_merge_labels [OF m1]] show ?case .
qed

lemma helper_labels: "helper w hit q = Some (Inr f) \<Longrightarrow> distinct (map fst (rows f))"
  by (auto simp: helper_def ebind_def data_frame_labels split: option.splits sum.splits)

lemma all_frames_labels:
  "all_frames w hit qs = Some (Inr fs) \<Longrightarrow> list_all (\<lambda>f. distinct (map fst (rows f))) fs"
proof (induction qs arbitrary: fs)
  case Nil
  then show ?case by simp
next
  case (Cons q qs)
  from Cons.prems obtain f fs0 where f: "helper w hit q = Some (Inr f)"
      and fs0: "all_frames w hit qs = Some (Inr fs0)" and fs: "fs = f # fs0"
    by (auto simp: ebind_def split: option.splits sum.splits)
  from helper_labels [OF f] Cons.IH [OF fs0] fs show ?case by simp
qed

lemma get_mturk_results_labels:
  assumes "get_mturk_results w hit qs s = Some (Inr (Some m), s')"
  shows "distinct (map fst (rows m))"
proof -
  from assms obtain fs where fs: "all_frames w hit qs = Some (Inr fs)" and m: "merge_frames fs = Inr (Some m)"
    by (auto simp: get_mturk_results_def split: option.splits sum.splits)
  from m obtain f0 where f0: "item fs 0 = Inr f0" and l: "merge_loop f0 (tl fs) = Inr m"
    by (auto simp: merge_frames_def ebind_def split: sum.splits error.splits)
  from f0 have "f0 \<in> set fs" by (auto simp: item_def split: if_splits)
  with all_frames_labels [OF fs] have "distinct (map fst (rows f0))" by (simp add: list_all_iff)
  with l show ?thesis by (rule merge_loop_labels)
qed

subsection \<open>Running the filter again\<close>

text \<open>
  A second run of \<open>filter_mturk_results\<close> against the same marketplace, from the
  object the first run left, returns the same and leaves the object as it is.
\<close>

lemma store_filtered_success:
  assumes "store_filtered w fetched s = (Inr u, s')"
  shows "\<exists>valid conds F a us fa fu.
           pd_concat fetched = Inr valid \<and> conditions s = Some conds
         \<and> apply_conditions w (cond_mapping s) conds valid = Inr F
         \<and> column_list valid ''AssignmentID'' = Inr a \<and> column_list valid ''WorkerID'' = Inr us
         \<and> column_list F ''AssignmentID'' = Inr fa \<and> column_list F ''WorkerID'' = Inr fu
         \<and> s' = s\<lparr>filtered_mturk_resp := Some F, allAssignments := Some a, allUsers := Some us,
                   filteredAssignments := Some fa, filteredUsers := Some fu\<rparr>"
  using assms
  by (auto simp: store_filtered_def Let_def attr_def ebind_def split: sum.splits option.splits)

lemma store_filtered_frame:
  assumes "conditions t = conditions s" "cond_mapping t = cond_mapping s"
    and "store_filtered w fetched s = (Inr u, s')"
  shows "\<exists>F a us fa fu.
           s' = s\<lparr>filtered_mturk_resp := Some F, allAssignments := Some a, allUsers := Some us,
                   filteredAssignments := Some fa, filteredUsers := Some fu\<rparr>
         \<and> store_filtered w fetched t
             = (Inr u, t\<lparr>filtered_mturk_resp := Some F, allAssignments := Some a, allUsers := Some us,
                   filteredAssignments := Some fa, filteredUsers := Some fu\<rparr>)"
proof -
  from store_filtered_success [OF assms(3)] obtain valid conds F a us fa fu where
    *: "pd_concat fetched = Inr valid" "conditions s = Some conds"
       "apply_conditions w (cond_mapping s) conds valid = Inr F"
       "column_list valid ''AssignmentID'' = Inr a" "column_list valid ''WorkerID'' = Inr us"
       "column_list F ''AssignmentID'' = Inr fa" "column_list F ''WorkerID'' = Inr fu"
       "s' = s\<lparr>filtered_mturk_resp := Some F, allAssignments := Some a, allUsers := Some us,
                   filteredAssignments := Some fa, filteredUsers := Some fu\<rparr>"
    by blast
  have "store_filtered w fetched t
             = (Inr u, t\<lparr>filtered_mturk_resp := Some F, allAssignments := Some a, allUsers := Some us,
                   filteredAssignments := Some fa, filteredUsers := Some fu\<rparr>)"
    using * assms(1,2) by (simp add: store_filtered_def Let_def attr_def ebind_def)
  with *(8) show ?thesis by blast
qed

lemma get_mturk_results_any_state:
  assumes "get_mturk_results w hit qs s = Some (r, s')"
  shows "\<exists>kept. \<forall>t. get_mturk_results w hit qs t = Some (r, keep_frame kept t)"
proof (cases r)
  case (Inl e)
  with assms have "\<forall>t. get_mturk_results w hit qs t = Some (r, keep_frame None t)"
    by (auto simp: get_mturk_results_def keep_frame_def split: option.splits sum.splits)
  then show ?thesis by blast
next
  case (Inr f)
  show ?thesis
  proof (cases f)
    case None
    with Inr assms have "\<forall>t. get_mturk_results w hit qs t = Some (r, keep_frame None t)"
      by (auto simp: get_mturk_results_def keep_frame_def split: option.splits sum.splits)
    then show ?thesis by blast
  next
    case (Some m)
    with Inr assms have "\<forall>t. get_mturk_results w hit qs t = Some (r, keep_frame (Some m) t)"
      by (auto simp: get_mturk_results_def keep_frame_def split: option.splits sum.splits)
    then show ?thesis by blast
  qed
qed

lemma keep_frame_twice:
  "keep_frame b (keep_frame a t) = keep_frame (case b of None \<Rightarrow> a | Some m \<Rightarrow> Some m) t"
  by (cases a; cases b) (simp_all add: keep_frame_def)

lemma results_per_hit_any_state:
  assumes "results_per_hit w qs hits s = Some (r, s')"
  shows "\<exists>kept. \<forall>t. results_per_hit w qs hits t = Some (r, keep_frame kept t)"
  using assms
proof (induction hits arbitrary: s r s')
  case Nil
  then have "\<forall>t. results_per_hit w qs [] t = Some (r, keep_frame None t)"
    by (simp add: keep_frame_def)
  then show ?case by blast
next
  case (Cons hit hits)
  from Cons.prems obtain r0 s0 where g: "get_mturk_results w hit qs s = Some (r0, s0)"
    by (auto split: option.splits)
  from get_mturk_results_any_state [OF g] obtain a where
    a: "\<And>t. get_mturk_results w hit qs t = Some (r0, keep_frame a t)" by blast
  show ?case
  proof (cases r0)
    case (Inl e)
    with Cons.prems g have "r = Inl e" by simp
    with Inl a have "\<forall>t. results_per_hit w qs (hit # hits) t = Some (r, keep_frame a t)" by simp
    then show ?thesis by blast
  next
    case (Inr f)
    with Cons.prems g obtain r1 s1 where h: "results_per_hit w qs hits s0 = Some (r1, s1)"
      by (auto split: option.splits)
    from Cons.IH [OF h] obtain b where
      b: "\<And>t. results_per_hit w qs hits t = Some (r1, keep_frame b t)" by blast
    have "\<forall>t. results_per_hit w qs (hit # hits) t
        = Some (r, keep_frame (case b of None \<Rightarrow> a | Some m \<Rightarrow> Some m) t)"
    proof
      fix t
      from Cons.prems g Inr h have "r = (case r1 of Inl e \<Rightarrow> Inl e | Inr fs \<Rightarrow> Inr (f # fs))"
        by (auto split: sum.splits)
      then show "results_per_hit w qs (hit # hits) t
        = Some (r, keep_frame (case b of None \<Rightarrow> a | Some m \<Rightarrow> Some m) t)"
        using a [of t] b [of "keep_frame a t"] Inr
        by (auto simp: keep_frame_twice split: sum.splits)
    qed
    then show ?thesis by blast
  qed
qed

lemma keep_frame_fields:
  "conditions (keep_frame kept t) = conditions t"
  "cond_mapping (keep_frame kept t) = cond_mapping t"
  "questions (keep_frame kept t) = questions t"
  "HITlist (keep_frame kept t) = HITlist t"
  "calls (keep_frame kept t) = calls t"
  "filteredUsers (keep_frame kept t) = filteredUsers t"
  "klass (keep_frame kept t) = klass t"
  by (cases kept; simp add: keep_frame_def)+

lemma filter_mturk_results_again:
  assumes "filter_mturk_results w s = Some (Inr u, s')"
  shows "filter_mturk_results w s' = Some (Inr u, s')"
proof -
  from assms obtain fetched s1 where f: "results_per_hit w (questions s) (HITlist s) s = Some (Inr fetched, s1)"
      and st: "store_filtered w fetched s1 = (Inr u, s')"
    by (auto simp: filter_mturk_results_def split: option.splits sum.splits)
  from results_per_hit_any_state [OF f] obtain kept where
    l: "\<And>t. results_per_hit w (questions s) (HITlist s) t = Some (Inr fetched, keep_frame kept t)" by blast
  from l [of s] f have s1: "s1 = keep_frame kept s" by simp
  have c: "conditions (keep_frame kept s') = conditions s1" "cond_mapping (keep_frame kept s') = cond_mapping s1"
    using store_filtered_success [OF st] by (auto simp: keep_frame_fields)
  from store_filtered_frame [OF c st] obtain F a us fa fu where
    s': "s' = s1\<lparr>filtered_mturk_resp := Some F, allAssignments := Some a, allUsers := Some us,
                   filteredAssignments := Some fa, filteredUsers := Some fu\<rparr>"
    and again: "store_filtered w fetched (keep_frame kept s')
             = (Inr u, (keep_frame kept s')\<lparr>filtered_mturk_resp := Some F, allAssignments := Some a, allUsers := Some us,
                   filteredAssignments := Some fa, filteredUsers := Some fu\<rparr>)"
    by blast
  have same: "(keep_frame kept s')\<lparr>filtered_mturk_resp := Some F, allAssignments := Some a, allUsers := Some us,
                   filteredAssignments := Some fa, filteredUsers := Some fu\<rparr> = s'"
    unfolding s' s1 by (cases kept) (simp_all add: keep_frame_def)
  have q: "questions s' = questions s" "HITlist s' = HITlist s"
    unfolding s' s1 by (simp_all add: keep_frame_fields)
  show ?thesis
    unfolding filter_mturk_results_def q l using again same by simp
qed

lemma screening_twice:
  "return_all_users w s = Some (Inr us, s') \<Longrightarrow> return_all_users w s' = Some (Inr us, s')"
  "return_filtered_users w s = Some (Inr fus, s') \<Longrightarrow> return_filtered_users w s' = Some (Inr fus, s')"
proof -
  assume "return_all_users w s = Some (Inr us, s')"
  then have "filter_mturk_results w s = Some (Inr (), s')" and "attr (allUsers s') = Inr us"
    by (auto simp: return_all_users_def after_filter_def split: option.splits sum.splits)
  with filter_mturk_results_again [of w s "()" s']
  show "return_all_users w s' = Some (Inr us, s')"
    by (simp add: return_all_users_def after_filter_def)
next
  assume "return_filtered_users w s = Some (Inr fus, s')"
  then have "filter_mturk_results w s = Some (Inr (), s')" and "attr (filteredUsers s') = Inr fus"
    by (auto simp: return_filtered_users_def after_filter_def split: option.splits sum.splits)
  with filter_mturk_results_again [of w s "()" s']
  show "return_filtered_users w s' = Some (Inr fus, s')"
    by (simp add: return_filtered_users_def after_filter_def)
qed

lemma pd_concat_single: "pd_concat [Some m] = Inr m"
  by (simp add: pd_concat_def)

lemma one_task_filter:
  assumes "HITlist s = [hit]" "conditions s = Some conds" "cond_mapping s = Some ops"
    and "filter_mturk_results w s = Some (Inr u, s')"
  shows "\<exists>valid. mturk_resp s' = Some valid \<and> filtered_mturk_resp s' = Some (filter_and w ops conds valid)"
proof -
  from assms(4) obtain fetched s1 where f: "results_per_hit w (questions s) (HITlist s) s = Some (Inr fetched, s1)"
      and st: "store_filtered w fetched s1 = (Inr u, s')"
    by (auto simp: filter_mturk_results_def split: option.splits sum.splits)
  from f assms(1) obtain r0 where g: "get_mturk_results w hit (questions s) s = Some (Inr r0, s1)"
      and fetched: "fetched = [r0]"
    by (auto split: option.splits sum.splits)
  from store_filtered_success [OF st] obtain valid conds' F where
    *: "pd_concat fetched = Inr valid" "conditions s1 = Some conds'"
       "apply_conditions w (cond_mapping s1) conds' valid = Inr F"
       "filtered_mturk_resp s' = Some F" "mturk_resp s' = mturk_resp s1"
    by auto
  from *(1) fetched obtain m where r0: "r0 = Some m" and valid: "valid = m"
    by (cases r0) (auto simp: pd_concat_def)
  from g r0 have s1: "s1 = s\<lparr>mturk_resp := Some m\<rparr>"
    by (auto simp: get_mturk_results_def split: option.splits sum.splits)
  from g r0 have d: "distinct (map fst (rows m))" by (auto dest: get_mturk_results_labels)
  from *(2,3) s1 assms(2,3) valid have a: "apply_conditions w (Some ops) conds m = Inr F" by simp
  have "F = filter_and w ops conds m"
  proof (cases "conds = []")
    case True
    with a show ?thesis by (simp add: apply_conditions_def filter_and_nil)
  next
    case False
    from apply_conditions_distinct_labels [OF d False a] show ?thesis .
  qed
  with *(4,5) s1 show ?thesis by simp
qed

subsection \<open>A dry run pays nothing\<close>

text \<open>
  With \<open>debug\<close> set, \<open>award_bonus\<close> makes no request that changes anything outside:
  the requests made are those made before the call. (This is the half of C6 that is about
  payments. The other half is about the budget, a sum and a product of Python floats
  that is only printed.)
\<close>

lemma pay_users_debug: "pay_users w amount True d s = (Inr (), s)"
  by (induction d arbitrary: s) auto

lemma pay_hits_debug: "snd (pay_hits w amount True workerList hits s) = s"
  by (induction hits arbitrary: s) (auto simp: pay_users_debug split: sum.splits)

lemma get_results_calls: "calls (snd (get_results w s)) = calls s"
  by (auto simp: get_results_def Let_def split: survey_class.splits sum.splits list.splits)

lemma store_filtered_calls: "calls (snd (store_filtered w fetched s)) = calls s"
  by (auto simp: store_filtered_def Let_def split: sum.splits)

lemma filter_mturk_results_calls:
  assumes "filter_mturk_results w s = Some (r, s')"
  shows "calls s' = calls s"
proof -
  from assms obtain r0 s1 where f: "results_per_hit w (questions s) (HITlist s) s = Some (r0, s1)"
    by (auto simp: filter_mturk_results_def split: option.splits)
  from results_per_hit_any_state [OF f] obtain kept where
    "\<And>t. results_per_hit w (questions s) (HITlist s) t = Some (r0, keep_frame kept t)" by blast
  from this [of s] f have s1: "calls s1 = calls s" by (simp add: keep_frame_fields)
  show ?thesis
  proof (cases r0)
    case (Inl e)
    with assms f s1 show ?thesis by (simp add: filter_mturk_results_def)
  next
    case (Inr fetched)
    with assms f have "s' = snd (store_filtered w fetched s1)" by (simp add: filter_mturk_results_def)
    with s1 show ?thesis by (simp add: store_filtered_calls)
  qed
qed

lemma award_bonus_debug_pays_nothing:
  assumes "award_bonus w amount customList True s = Some (r, s')"
  shows "calls s' = calls s"
proof -
  from assms obtain r1 s1 where f: "filter_mturk_results w s = Some (r1, s1)"
    by (auto simp: award_bonus_def after_results_def after_filter_def split: option.splits)
  from filter_mturk_results_calls [OF f] have c1: "calls s1 = calls s" .
  show ?thesis
  proof (cases r1)
    case (Inl e)
    with assms f c1 show ?thesis by (simp add: award_bonus_def after_results_def after_filter_def)
  next
    case (Inr u)
    obtain r2 s2 where g: "get_results w s1 = (r2, s2)" by (cases "get_results w s1")
    then have c2: "calls s2 = calls s1" using get_results_calls [of w s1] by simp
    show ?thesis
    proof (cases r2)
      case (Inl e)
      with assms f Inr g c1 c2 show ?thesis
        by (simp add: award_bonus_def after_results_def after_filter_def)
    next
      case (Inr v)
      have same: "\<And>wl r'. pay_hits w amount True wl (HITlist s2) s2 = (r', s') \<Longrightarrow> s' = s2"
        by (metis pay_hits_debug snd_conv)
      from assms f \<open>r1 = Inr u\<close> g Inr have "s' = s2"
        by (auto simp: award_bonus_def after_results_def after_filter_def
            split: sum.splits option.splits dest: same)
      with c1 c2 show ?thesis by simp
    qed
  qed
qed

subsection \<open>Registering conditions\<close>

text \<open>
  C3 (as amended). \<open>add_conditions\<close> accepts a list of condition strings exactly when
  in every one of them at least one operator occurs, and then stores the list; a string in
  which no operator occurs raises \<open>ValueError\<close> and leaves the stored conditions as they
  were. A string in which several operators occur is accepted like one with a single
  operator: the method never counts the operators it finds.
\<close>

theorem add_conditions_accepts_iff_some_operator:
  "fst (add_conditions conds s) =
     (if list_all (\<lambda>cond. matching operators cond \<noteq> []) conds then Inr () else Inl ValueError)
   \<and> conditions (snd (add_conditions conds s)) =
     (if list_all (\<lambda>cond. matching operators cond \<noteq> []) conds then Some conds else conditions s)
   \<and> cond_mapping (snd (add_conditions conds s)) = Some operators"
  by (auto simp: add_conditions_def matching_nonempty list_all_iff list_ex_iff Let_def)

text \<open>
  The claim as it was stated asks for exactly one operator. In \<open>Q1 == a != b\<close> two
  operators occur, and the string is accepted.
\<close>

theorem add_conditions_two_operators_counterexample:
  "length (matching operators ''Q1 == a != b'') = 2
   \<and> fst (add_conditions [''Q1 == a != b''] (init Survey [''H1''] [''Q1''] ''link'' ''me'')) = Inr ()"
  by (simp add: add_conditions_def matching_def operators_def)

end
